theory Spec2Isabelle
  imports Complex_Main "HOL-Library.Sublist"
begin

section \<open>Matching Interim Pro: the front-end managers and the database schema\<close>

text \<open>
  The development embeds four parts of the repository:
  \<^item> \<^verbatim>\<open>frontend/js/upload.js\<close> (\<^verbatim>\<open>UploadManager\<close>): file validation and selection;
  \<^item> \<^verbatim>\<open>frontend/js/results.js\<close> (\<^verbatim>\<open>ResultsManager\<close>): the results view and its filters;
  \<^item> \<^verbatim>\<open>frontend/js/matching.js\<close> (\<^verbatim>\<open>MatchingManager\<close>): the trigger of a matching run;
  \<^item> \<^verbatim>\<open>init_db.sql\<close>: the tables \<^verbatim>\<open>clients\<close>, \<^verbatim>\<open>users\<close>, \<^verbatim>\<open>candidats\<close>, \<^verbatim>\<open>besoins\<close>,
    \<^verbatim>\<open>matchings\<close>, \<^verbatim>\<open>candidatures\<close> with their keys, checks and cascades, and the view
    \<^verbatim>\<open>v_stats_clients\<close>.

  Conventions. A JavaScript string is a \<^typ>\<open>string\<close>; only ASCII letters have a lower-case
  form here. A manager object is a record and a method is a function from the record to the
  updated record. Writes to the page (\<^verbatim>\<open>innerHTML\<close>, \<^verbatim>\<open>classList\<close>) are left out unless a
  statement below reads them; the page is taken to contain the elements that the code
  dereferences without a guard. Toast messages are named by the key of \<^verbatim>\<open>config.MESSAGES\<close>.
\<close>

subsection \<open>JavaScript primitives\<close>

text \<open>A UUID travels as text, in the database and in the JSON of the API.\<close>

type_synonym uuid = string

text \<open>\<^verbatim>\<open>String.prototype.split\<close> with a one-character separator: never the empty list.\<close>

fun split_on :: "char \<Rightarrow> string \<Rightarrow> string list" where
  "split_on c [] = [[]]"
| "split_on c (x # xs) =
     (if x = c then [] # split_on c xs
      else (case split_on c xs of [] \<Rightarrow> [[x]] | y # ys \<Rightarrow> (x # y) # ys))"

text \<open>\<^verbatim>\<open>Array.prototype.pop\<close> as used on the result of \<^verbatim>\<open>split\<close>: the last element,
  \<^verbatim>\<open>undefined\<close> (here \<open>None\<close>) on the empty array.\<close>

definition pop :: "'a list \<Rightarrow> 'a option" where
  "pop xs = (if xs = [] then None else Some (last xs))"

definition lower_char :: "char \<Rightarrow> char" where
  "lower_char c =
     (let n = (of_char c :: nat) in if 65 \<le> n \<and> n \<le> 90 then char_of (n + 32) else c)"

definition toLowerCase :: "string \<Rightarrow> string" where
  "toLowerCase s = map lower_char s"

text \<open>\<^verbatim>\<open>Math.round\<close> on an exact rational: the nearest integer, halves upwards. The code
  rounds a double; the two agree wherever the exact product is an integer, as it is
  for a score with two decimals times 100, and may differ next to a half (0.285 times 100).\<close>

definition js_round :: "rat \<Rightarrow> int" where
  "js_round q = \<lfloor>q + 1 / 2\<rfloor>"

text \<open>
  \<^verbatim>\<open>parseInt(s)\<close> without a radix: leading white space and a sign are skipped, a prefix
  \<^verbatim>\<open>0x\<close> selects base sixteen, the longest prefix of digits is read, and \<^verbatim>\<open>NaN\<close> (here
  \<open>None\<close>) is the result when there is no digit. The result is the exact integer, which
  is the code's double up to 2^53, and the white space skipped is the ASCII one.
\<close>

definition is_space :: "char \<Rightarrow> bool" where
  "is_space c = ((of_char c :: nat) \<in> {9, 10, 11, 12, 13, 32})"

definition digit_of :: "char \<Rightarrow> nat option" where
  "digit_of c =
     (let n = (of_char c :: nat) in
      if 48 \<le> n \<and> n \<le> 57 then Some (n - 48)
      else if 97 \<le> n \<and> n \<le> 122 then Some (n - 87)
      else if 65 \<le> n \<and> n \<le> 90 then Some (n - 55)
      else None)"

definition is_digit :: "nat \<Rightarrow> char \<Rightarrow> bool" where
  "is_digit radix c = (case digit_of c of None \<Rightarrow> False | Some d \<Rightarrow> d < radix)"

definition digits_value :: "nat \<Rightarrow> string \<Rightarrow> nat" where
  "digits_value radix ds =
     foldl (\<lambda>acc c. acc * radix + (case digit_of c of None \<Rightarrow> 0 | Some d \<Rightarrow> d)) 0 ds"

definition parse_digits :: "nat \<Rightarrow> string \<Rightarrow> nat option" where
  "parse_digits radix s =
     (let ds = takeWhile (is_digit radix) s
      in if ds = [] then None else Some (digits_value radix ds))"

definition strip_hex_prefix :: "string \<Rightarrow> nat \<times> string" where
  "strip_hex_prefix s =
     (case s of
        a # b # rest \<Rightarrow>
          (if a = CHR ''0'' \<and> (b = CHR ''x'' \<or> b = CHR ''X'') then (16, rest) else (10, s))
      | _ \<Rightarrow> (10, s))"

definition parseInt :: "string \<Rightarrow> int option" where
  "parseInt s =
     (let t = dropWhile is_space s;
          (neg, u) = (case t of
                        c # r \<Rightarrow> if c = CHR ''-'' then (True, r)
                                 else if c = CHR ''+'' then (False, r) else (False, t)
                      | [] \<Rightarrow> (False, t));
          (radix, v) = strip_hex_prefix u
      in case parse_digits radix v of
           None \<Rightarrow> None
         | Some n \<Rightarrow> Some (if neg then - int n else int n))"

subsection \<open>JSON values\<close>

text \<open>
  What \<^verbatim>\<open>response.json()\<close> yields and what \<^verbatim>\<open>JSON.stringify\<close> consumes. The numbers
  exchanged with the run endpoint are counts and milliseconds, so a number is an
  \<^typ>\<open>int\<close>. \<^verbatim>\<open>JSON.parse\<close> keeps the last of two equal keys.
\<close>

datatype json =
  JNull | JBool bool | JNum int | JStr string | JArr "json list" | JObj "(string \<times> json) list"

text \<open>Property read \<^verbatim>\<open>v.k\<close> on a value that is not \<^verbatim>\<open>null\<close>: \<open>None\<close> is
  \<^verbatim>\<open>undefined\<close>.\<close>

fun js_get :: "json \<Rightarrow> string \<Rightarrow> json option" where
  "js_get (JObj kvs) k = map_of (rev kvs) k"
| "js_get _ k = None"

fun truthy :: "json \<Rightarrow> bool" where
  "truthy JNull = False"
| "truthy (JBool b) = b"
| "truthy (JNum n) = (n \<noteq> 0)"
| "truthy (JStr s) = (s \<noteq> [])"
| "truthy (JArr _) = True"
| "truthy (JObj _) = True"

text \<open>\<^verbatim>\<open>x || d\<close> where \<^verbatim>\<open>x\<close> is a property read.\<close>

definition js_or :: "json option \<Rightarrow> json \<Rightarrow> json" where
  "js_or x d = (case x of None \<Rightarrow> d | Some v \<Rightarrow> if truthy v then v else d)"

text \<open>\<^verbatim>\<open>s || d\<close> on a string that may be absent.\<close>

definition str_or :: "string option \<Rightarrow> string \<Rightarrow> string" where
  "str_or x d = (case x of None \<Rightarrow> d | Some v \<Rightarrow> if v \<noteq> [] then v else d)"

subsection \<open>config.js and the toasts\<close>

definition MAX_FILE_SIZE :: nat where
  "MAX_FILE_SIZE = 10"

definition ALLOWED_EXTENSIONS :: "string list" where
  "ALLOWED_EXTENSIONS = [''.csv'', ''.xlsx'', ''.xls'']"

definition ITEMS_PER_PAGE :: nat where
  "ITEMS_PER_PAGE = 20"

text \<open>
  The summary that \<^verbatim>\<open>runMatching\<close> shows after a run: the three values it interpolates.
  \<open>Seconds_of v\<close> stands for \<^verbatim>\<open>(v/1000).toFixed(1) + 's'\<close>, \<open>NA\<close> for \<^verbatim>\<open>'N/A'\<close>.
\<close>

datatype duration_text = NA | Seconds_of json

record run_summary =
  besoins_traites :: json
  matchings_crees :: json
  duree :: duration_text

text \<open>The toasts of the three managers: a key of \<^verbatim>\<open>config.MESSAGES\<close> or the literal text
  of the call, named after it.\<close>

text \<open>The \<^verbatim>\<open>message\<close> of a caught error: the text of an \<^verbatim>\<open>Error\<close> that \<^verbatim>\<open>api.post\<close> threw, or
  the text, chosen by the browser, of the \<^verbatim>\<open>TypeError\<close> for a property read on \<^verbatim>\<open>null\<close>.\<close>

datatype error_message = Message string | TypeError_property_of_null

datatype message =
    FILE_INVALID_TYPE
  | FILE_TOO_LARGE nat
  | Un_matching_est_deja_en_cours
  | Matching_termine_avec_succes run_summary
  | Erreur_lors_du_matching error_message
  | Aucun_candidat_disponible
  | Aucun_besoin_ouvert
  | Erreur_lors_de_la_previsualisation

datatype toast_kind = error | warning | info | success

type_synonym toast = "message \<times> toast_kind"

subsection \<open>upload.js: UploadManager\<close>

text \<open>A \<^verbatim>\<open>File\<close>: its name and its size in bytes.\<close>

record js_file =
  file_name :: string
  file_size :: nat

datatype upload_type = Candidats | Besoins

record upload_manager =
  files :: "upload_type \<Rightarrow> js_file option"
  uploadedData :: "upload_type \<Rightarrow> string option"

definition UploadManager_new :: upload_manager where
  "UploadManager_new = \<lparr>files = (\<lambda>_. None), uploadedData = (\<lambda>_. None)\<rparr>"

text \<open>The extension that \<^verbatim>\<open>validateFile\<close> computes:
  \<^verbatim>\<open>'.' + file.name.split('.').pop().toLowerCase()\<close>.\<close>

definition file_ext :: "js_file \<Rightarrow> string" where
  "file_ext f =
     ''.'' @ toLowerCase (case pop (split_on CHR ''.'' (file_name f)) of None \<Rightarrow> [] | Some e \<Rightarrow> e)"

text \<open>\<^verbatim>\<open>validateFile\<close> returns the verdict and the toast it shows.\<close>

definition validateFile :: "js_file \<Rightarrow> bool \<times> toast list" where
  "validateFile f =
     (if file_ext f \<notin> set ALLOWED_EXTENSIONS then (False, [(FILE_INVALID_TYPE, error)])
      else
        (let sizeMB = (of_nat (file_size f) :: rat) / (1024 * 1024)
         in if sizeMB > of_nat MAX_FILE_SIZE then (False, [(FILE_TOO_LARGE MAX_FILE_SIZE, error)])
            else (True, [])))"

text \<open>\<^verbatim>\<open>handleFileSelect\<close>: the manager after the call; the preview and the button state
  are page writes.\<close>

definition handleFileSelect :: "js_file \<Rightarrow> upload_type \<Rightarrow> upload_manager \<Rightarrow> upload_manager" where
  "handleFileSelect f ty um =
     (if \<not> fst (validateFile f) then um
      else um\<lparr>files := (files um)(ty := Some f)\<rparr>)"

subsection \<open>results.js: ResultsManager\<close>

text \<open>One entry of \<^verbatim>\<open>this.results\<close>, as \<^verbatim>\<open>processMatchings\<close> builds it.\<close>

record result_entry =
  entry_id :: uuid
  entry_candidat_id :: uuid
  candidat_nom :: string
  entry_besoin_id :: uuid
  poste :: string
  score :: int
  rang :: "int option"
  telephone :: string
  email :: string
  disponibilite :: string
  experience :: string
  points_forts :: "string list"
  points_faibles :: "string list"
  status :: string

record result_filters =
  filter_score :: string
  filter_status :: string
  filter_poste :: string

record results_manager =
  results :: "result_entry list"
  filteredResults :: "result_entry list"
  currentBesoinId :: "uuid option"
  currentPage :: nat
  itemsPerPage :: nat
  filters :: result_filters

definition ResultsManager_new :: results_manager where
  "ResultsManager_new =
     \<lparr>results = [], filteredResults = [], currentBesoinId = None, currentPage = 1,
      itemsPerPage = (if ITEMS_PER_PAGE \<noteq> 0 then ITEMS_PER_PAGE else 20),
      filters = \<lparr>filter_score = [], filter_status = [], filter_poste = []\<rparr>\<rparr>"

text \<open>
  One element of the array that \<^verbatim>\<open>GET /matchings/besoin/{id}\<close> returns, with the fields
  that \<^verbatim>\<open>processMatchings\<close> reads; \<open>None\<close> is an absent or \<^verbatim>\<open>null\<close> field.
  \<open>j_poste_recherche\<close> is \<^verbatim>\<open>m.besoin_info?.poste_recherche\<close>. The score is an exact
  rational: values with two decimals below one thousand lose nothing in a double that the
  rounding could see.
\<close>

record matching_json =
  j_id :: uuid
  j_candidat_id :: uuid
  j_candidat_nom :: "string option"
  j_besoin_id :: uuid
  j_poste_recherche :: "string option"
  j_score_total :: rat
  j_rang :: "int option"
  j_telephone :: "string option"
  j_email :: "string option"
  j_disponibilite :: "string option"
  j_experience :: "string option"
  j_points_forts :: "string list option"
  j_points_faibles :: "string list option"

definition getStatus :: "rat \<Rightarrow> string" where
  "getStatus sc =
     (if sc \<ge> 90 then ''excellent''
      else if sc \<ge> 75 then ''bon''
      else if sc \<ge> 50 then ''moyen''
      else ''faible'')"

text \<open>The arrow function mapped over the array in \<^verbatim>\<open>processMatchings\<close>.\<close>

definition processMatching :: "matching_json \<Rightarrow> result_entry" where
  "processMatching m =
     \<lparr>entry_id = j_id m,
      entry_candidat_id = j_candidat_id m,
      candidat_nom = str_or (j_candidat_nom m) (''Candidat '' @ j_candidat_id m),
      entry_besoin_id = j_besoin_id m,
      poste = str_or (j_poste_recherche m) ''N/A'',
      score = js_round (j_score_total m * 100),
      rang = j_rang m,
      telephone = str_or (j_telephone m) ''N/A'',
      email = str_or (j_email m) ''N/A'',
      disponibilite = str_or (j_disponibilite m) ''N/A'',
      experience = str_or (j_experience m) ''N/A'',
      points_forts = (case j_points_forts m of None \<Rightarrow> [] | Some ps \<Rightarrow> ps),
      points_faibles = (case j_points_faibles m of None \<Rightarrow> [] | Some ps \<Rightarrow> ps),
      status = getStatus (j_score_total m * 100)\<rparr>"

definition processMatchings :: "matching_json list \<Rightarrow> results_manager \<Rightarrow> results_manager" where
  "processMatchings ms rm =
     (let rs = map processMatching ms in rm\<lparr>results := rs, filteredResults := rs\<rparr>)"

text \<open>The callback of \<^verbatim>\<open>this.results.filter\<close> in \<^verbatim>\<open>applyFilters\<close>. A comparison with
  \<^verbatim>\<open>NaN\<close> is false, so an unparsable score filter removes nothing.\<close>

definition keeps :: "result_filters \<Rightarrow> result_entry \<Rightarrow> bool" where
  "keeps fs r =
     (if filter_score fs \<noteq> [] \<and>
         (case parseInt (filter_score fs) of None \<Rightarrow> False | Some minScore \<Rightarrow> score r < minScore)
      then False
      else if filter_status fs \<noteq> [] \<and> status r \<noteq> filter_status fs then False
      else if filter_poste fs \<noteq> [] \<and> poste r \<noteq> filter_poste fs then False
      else True)"

definition applyFilters :: "results_manager \<Rightarrow> results_manager" where
  "applyFilters rm =
     rm\<lparr>filteredResults := filter (keeps (filters rm)) (results rm), currentPage := 1\<rparr>"

text \<open>
  \<^verbatim>\<open>clearFilters\<close> resets the filters, then writes the three filter controls of the page,
  then copies the results. A missing control makes the write throw, after the filters were
  reset and before the copy: the second component is \<open>False\<close> then.
\<close>

record results_page =
  has_filter_score :: bool
  has_filter_status :: bool
  has_filter_poste :: bool

definition clearFilters :: "results_page \<Rightarrow> results_manager \<Rightarrow> results_manager \<times> bool" where
  "clearFilters pg rm =
     (let rm1 = rm\<lparr>filters := \<lparr>filter_score = [], filter_status = [], filter_poste = []\<rparr>\<rparr>
      in if \<not> has_filter_score pg then (rm1, False)
         else if \<not> has_filter_status pg then (rm1, False)
         else if \<not> has_filter_poste pg then (rm1, False)
         else (rm1\<lparr>filteredResults := results rm1\<rparr>, True))"

subsection \<open>matching.js: MatchingManager\<close>

text \<open>\<^verbatim>\<open>this.config\<close>. The sliders store \<^verbatim>\<open>parseInt(value)\<close>, so a number may be
  \<^verbatim>\<open>NaN\<close> (\<open>None\<close>), which \<^verbatim>\<open>JSON.stringify\<close> writes as \<^verbatim>\<open>null\<close>.\<close>

record mm_config =
  cfg_besoin_id :: "uuid option"
  score_min :: "int option"
  nb_candidats :: "int option"
  use_ai :: bool

record matching_manager =
  config :: mm_config
  isRunning :: bool
  run_results :: "json option"
  progressTimer :: "nat option"

definition default_config :: mm_config where
  "default_config =
     \<lparr>cfg_besoin_id = None, score_min = Some 40, nb_candidats = Some 5, use_ai = False\<rparr>"

definition MatchingManager_new :: matching_manager where
  "MatchingManager_new =
     \<lparr>config = default_config, isRunning = False, run_results = None, progressTimer = None\<rparr>"

definition json_of_number :: "int option \<Rightarrow> json" where
  "json_of_number x = (case x of None \<Rightarrow> JNull | Some n \<Rightarrow> JNum n)"

text \<open>The object literal \<^verbatim>\<open>requestData\<close> of \<^verbatim>\<open>runMatching\<close>.\<close>

definition requestData :: "mm_config \<Rightarrow> json" where
  "requestData cfg =
     JObj [(''besoin_id'', (case cfg_besoin_id cfg of
                              None \<Rightarrow> JNull
                            | Some i \<Rightarrow> if i \<noteq> [] then JStr i else JNull)),
           (''use_ai'', JBool (use_ai cfg)),
           (''force_refresh'', JBool True),
           (''config'', JObj [(''score_min'', json_of_number (score_min cfg)),
                             (''nb_candidats'', json_of_number (nb_candidats cfg))])]"

text \<open>What \<^verbatim>\<open>runMatching\<close> reads from the response for its summary toast.\<close>

definition summary :: "json \<Rightarrow> run_summary" where
  "summary response =
     \<lparr>besoins_traites = js_or (js_get response ''besoins_processed'') (JNum 0),
      matchings_crees = js_or (js_get response ''matchings_created'') (JNum 0),
      duree = (case js_get response ''duration_ms'' of
                 None \<Rightarrow> NA
               | Some v \<Rightarrow> if truthy v then Seconds_of v else NA)\<rparr>"

text \<open>The texts written to \<^verbatim>\<open>progress-text\<close>, named after their wording.\<close>

datatype step_text =
    Initialisation
  | Chargement_des_candidats
  | Chargement_des_besoins
  | Analyse_des_competences
  | Calcul_des_scores
  | Generation_des_resultats
  | Finalisation
  | Matching_termine
  | Erreur

text \<open>The constant array \<^verbatim>\<open>steps\<close> of \<^verbatim>\<open>simulateProgress\<close>.\<close>

definition steps :: "(nat \<times> step_text) list" where
  "steps =
     [(10, Initialisation), (25, Chargement_des_candidats), (40, Chargement_des_besoins),
      (60, Analyse_des_competences), (75, Calcul_des_scores),
      (90, Generation_des_resultats), (95, Finalisation)]"

text \<open>
  The page around the manager. \<open>now\<close> is the clock of the page in milliseconds.
  \<open>pending_posts\<close> holds the bodies of the calls \<^verbatim>\<open>api.post(RUN_MATCHING, requestData)\<close> that
  have not been answered: the runs in flight. \<open>intervals\<close> holds the live \<^verbatim>\<open>setInterval\<close>
  timers: the handle, the time from which the next firing is due and the \<^verbatim>\<open>currentStep\<close> of
  the closure. \<open>hide_timeouts\<close> holds the times from which the scheduled callbacks that hide
  the bar are due, in the order of their scheduling. \<open>progress_width\<close>, \<open>progress_text\<close> and
  \<open>progress_hidden\<close> are what the page shows: the width of \<^verbatim>\<open>progress-fill\<close> in percent, the
  text of \<^verbatim>\<open>progress-text\<close> and the class \<^verbatim>\<open>hidden\<close> of \<^verbatim>\<open>matching-progress\<close>.
\<close>

record browser =
  manager :: matching_manager
  now :: nat
  pending_posts :: "json list"
  intervals :: "(nat \<times> nat \<times> nat) list"
  next_timer :: nat
  hide_timeouts :: "nat list"
  toasts :: "toast list"
  progress_width :: nat
  progress_text :: "step_text option"
  progress_hidden :: bool
  run_btn_disabled :: bool

definition browser_init :: browser where
  "browser_init =
     \<lparr>manager = MatchingManager_new, now = 0, pending_posts = [], intervals = [],
      next_timer = 0, hide_timeouts = [], toasts = [], progress_width = 0,
      progress_text = None, progress_hidden = True, run_btn_disabled = False\<rparr>"

text \<open>The period of \<^verbatim>\<open>setInterval\<close> in \<^verbatim>\<open>simulateProgress\<close> and the delay of the
  \<^verbatim>\<open>setTimeout\<close> in the \<^verbatim>\<open>finally\<close> block of \<^verbatim>\<open>runMatching\<close>, in milliseconds.\<close>

definition PROGRESS_PERIOD_MS :: nat where
  "PROGRESS_PERIOD_MS = 1500"

definition HIDE_DELAY_MS :: nat where
  "HIDE_DELAY_MS = 2000"

text \<open>\<^verbatim>\<open>simulateProgress\<close>: a new timer, first due one period from now, whose closure starts
  at step 0; its handle is stored in \<^verbatim>\<open>this.progressTimer\<close>.\<close>

definition simulateProgress :: "browser \<Rightarrow> browser" where
  "simulateProgress b =
     (let tid = next_timer b
      in b\<lparr>intervals := intervals b @ [(tid, now b + PROGRESS_PERIOD_MS, 0)],
           next_timer := Suc tid,
           manager := (manager b)\<lparr>progressTimer := Some tid\<rparr>\<rparr>)"

text \<open>One firing of the callback of timer \<open>tid\<close>. A timer does not fire before it is due; when
  it fires it is due again one period later, and its callback writes the next step to the
  bar as long as there is one.\<close>

definition interval_callback :: "nat \<Rightarrow> browser \<Rightarrow> browser" where
  "interval_callback tid b =
     (case map_of (intervals b) tid of
        None \<Rightarrow> b
      | Some (due, currentStep) \<Rightarrow>
          if now b < due then b
          else
            (let b1 = b\<lparr>intervals :=
                          map (\<lambda>(i, d, k). if i = tid then (i, now b + PROGRESS_PERIOD_MS, k)
                                           else (i, d, k))
                              (intervals b)\<rparr>
             in if currentStep < length steps then
                  (let step = steps ! currentStep
                   in b1\<lparr>progress_width := fst step,
                         progress_text := Some (snd step),
                         intervals := map (\<lambda>(i, d, k). if i = tid then (i, d, Suc k)
                                                     else (i, d, k))
                                          (intervals b1)\<rparr>)
                else b1))"

definition clearInterval :: "nat option \<Rightarrow> browser \<Rightarrow> browser" where
  "clearInterval t b =
     (case t of
        None \<Rightarrow> b
      | Some tid \<Rightarrow> b\<lparr>intervals := filter (\<lambda>(i, d, k). i \<noteq> tid) (intervals b)\<rparr>)"

text \<open>\<^verbatim>\<open>runMatching\<close> up to its \<^verbatim>\<open>await\<close>; the argument is the answer to \<^verbatim>\<open>confirm\<close>.\<close>

definition runMatching :: "bool \<Rightarrow> browser \<Rightarrow> browser" where
  "runMatching confirmed b =
     (if isRunning (manager b) then
        b\<lparr>toasts := toasts b @ [(Un_matching_est_deja_en_cours, warning)]\<rparr>
      else if \<not> confirmed then b
      else
        (let b1 = b\<lparr>manager := (manager b)\<lparr>isRunning := True\<rparr>,
                     run_btn_disabled := True,
                     progress_hidden := False\<rparr>;
             b2 = simulateProgress b1
         in b2\<lparr>pending_posts := pending_posts b2 @ [requestData (config (manager b2))]\<rparr>))"

text \<open>The \<^verbatim>\<open>catch\<close> and \<^verbatim>\<open>finally\<close> blocks of \<^verbatim>\<open>runMatching\<close>.\<close>

definition runMatching_catch :: "error_message \<Rightarrow> browser \<Rightarrow> browser" where
  "runMatching_catch msg b =
     (let b1 = b\<lparr>toasts := toasts b @ [(Erreur_lors_du_matching msg, error)]\<rparr>;
          b2 = clearInterval (progressTimer (manager b1)) b1
      in b2\<lparr>progress_width := 0, progress_text := Some Erreur\<rparr>)"

definition runMatching_finally :: "browser \<Rightarrow> browser" where
  "runMatching_finally b =
     b\<lparr>manager := (manager b)\<lparr>isRunning := False\<rparr>,
       run_btn_disabled := False,
       hide_timeouts := hide_timeouts b @ [now b + HIDE_DELAY_MS]\<rparr>"

text \<open>\<^verbatim>\<open>runMatching\<close> after its \<^verbatim>\<open>await\<close>, when the call returned \<open>response\<close>. Reading a
  property of \<^verbatim>\<open>null\<close> throws, which the \<^verbatim>\<open>catch\<close> block receives. The question asked
  one second later, whether to open the results page, writes no field.\<close>

definition runMatching_resolved :: "json \<Rightarrow> browser \<Rightarrow> browser" where
  "runMatching_resolved response b =
     (let b1 = clearInterval (progressTimer (manager b)) b;
          b2 = b1\<lparr>progress_width := 100, progress_text := Some Matching_termine\<rparr>;
          b3 = b2\<lparr>manager := (manager b2)\<lparr>run_results := Some response\<rparr>\<rparr>
      in runMatching_finally
           (if response = JNull then runMatching_catch TypeError_property_of_null b3
            else b3\<lparr>toasts := toasts b3 @
                       [(Matching_termine_avec_succes (summary response), success)]\<rparr>))"

text \<open>\<^verbatim>\<open>runMatching\<close> after its \<^verbatim>\<open>await\<close>, when the call threw an error with \<open>msg\<close>.\<close>

definition runMatching_rejected :: "string \<Rightarrow> browser \<Rightarrow> browser" where
  "runMatching_rejected msg b = runMatching_finally (runMatching_catch (Message msg) b)"

text \<open>The callback scheduled by the \<^verbatim>\<open>finally\<close> block: the earliest one runs, once it is
  due. It does not look at \<^verbatim>\<open>isRunning\<close>.\<close>

definition hide_progress :: "browser \<Rightarrow> browser" where
  "hide_progress b =
     (case hide_timeouts b of
        [] \<Rightarrow> b
      | due # rest \<Rightarrow>
          if now b < due then b
          else b\<lparr>hide_timeouts := rest, progress_hidden := True, progress_width := 0\<rparr>)"

text \<open>\<^verbatim>\<open>previewMatching\<close>: what its two \<^verbatim>\<open>api.get\<close> calls returned decides the toast; it
  writes no field of the manager.\<close>

datatype preview_answer = Preview_failed | Preview_lengths nat nat

definition previewMatching :: "preview_answer \<Rightarrow> browser \<Rightarrow> browser" where
  "previewMatching ans b =
     (if isRunning (manager b) then
        b\<lparr>toasts := toasts b @ [(Un_matching_est_deja_en_cours, warning)]\<rparr>
      else
        (case ans of
           Preview_failed \<Rightarrow>
             b\<lparr>toasts := toasts b @ [(Erreur_lors_de_la_previsualisation, error)]\<rparr>
         | Preview_lengths nc nb \<Rightarrow>
             if nc = 0 then b\<lparr>toasts := toasts b @ [(Aucun_candidat_disponible, warning)]\<rparr>
             else if nb = 0 then b\<lparr>toasts := toasts b @ [(Aucun_besoin_ouvert, warning)]\<rparr>
             else b))"

text \<open>The handlers of the controls, \<^verbatim>\<open>loadBesoins\<close>, which selects the need when the
  list of open needs has one element, and \<^verbatim>\<open>reset\<close>.\<close>

definition set_config :: "(mm_config \<Rightarrow> mm_config) \<Rightarrow> browser \<Rightarrow> browser" where
  "set_config f b = b\<lparr>manager := (manager b)\<lparr>config := f (config (manager b))\<rparr>\<rparr>"

datatype event =
    Elapse nat
  | RunClick bool
  | PreviewClick preview_answer
  | Tick nat
  | PostResolved nat json
  | PostRejected nat string
  | HideTimeout
  | ScoreSliderInput string
  | NbSliderInput string
  | BesoinSelected string
  | UseAiChanged bool
  | BesoinsLoaded "uuid list"
  | Reset

definition remove_nth :: "nat \<Rightarrow> 'a list \<Rightarrow> 'a list" where
  "remove_nth i xs = take i xs @ drop (Suc i) xs"

text \<open>One turn of the event loop, or the passing of some milliseconds. An answer arrives
  only for a call that is pending.\<close>

fun step :: "event \<Rightarrow> browser \<Rightarrow> browser" where
  "step (Elapse ms) b = b\<lparr>now := now b + ms\<rparr>"
| "step (RunClick confirmed) b = runMatching confirmed b"
| "step (PreviewClick ans) b = previewMatching ans b"
| "step (Tick tid) b = interval_callback tid b"
| "step (PostResolved i response) b =
     (if i < length (pending_posts b)
      then runMatching_resolved response (b\<lparr>pending_posts := remove_nth i (pending_posts b)\<rparr>)
      else b)"
| "step (PostRejected i msg) b =
     (if i < length (pending_posts b)
      then runMatching_rejected msg (b\<lparr>pending_posts := remove_nth i (pending_posts b)\<rparr>)
      else b)"
| "step HideTimeout b = hide_progress b"
| "step (ScoreSliderInput v) b = set_config (\<lambda>c. c\<lparr>score_min := parseInt v\<rparr>) b"
| "step (NbSliderInput v) b = set_config (\<lambda>c. c\<lparr>nb_candidats := parseInt v\<rparr>) b"
| "step (BesoinSelected v) b =
     set_config (\<lambda>c. c\<lparr>cfg_besoin_id := (if v \<noteq> [] then Some v else None)\<rparr>) b"
| "step (UseAiChanged v) b = set_config (\<lambda>c. c\<lparr>use_ai := v\<rparr>) b"
| "step (BesoinsLoaded ids) b =
     set_config (\<lambda>c. case ids of [i] \<Rightarrow> c\<lparr>cfg_besoin_id := Some i\<rparr> | _ \<Rightarrow> c) b"
| "step Reset b = set_config (\<lambda>c. default_config) b"

definition run_events :: "event list \<Rightarrow> browser \<Rightarrow> browser" where
  "run_events es b = foldl (\<lambda>s e. step e s) b es"

text \<open>\<^verbatim>\<open>Object.keys\<close> of a value built by an object literal.\<close>

fun object_keys :: "json \<Rightarrow> string list" where
  "object_keys (JObj kvs) = map fst kvs"
| "object_keys _ = []"

text \<open>The events that answer a pending call.\<close>

fun is_answer :: "event \<Rightarrow> bool" where
  "is_answer (PostResolved _ _) = True"
| "is_answer (PostRejected _ _) = True"
| "is_answer _ = False"

text \<open>What the bar shows while the closure of the run's timer is at \<open>currentStep\<close>, on a page
  where no callback of an earlier run interferes: hidden or not, the width and the text.
  Before the first firing the width and the text are those that the page had.\<close>

definition bar_at_step ::
  "nat \<Rightarrow> nat \<times> step_text option \<Rightarrow> bool \<times> nat \<times> step_text option" where
  "bar_at_step currentStep before =
     (if currentStep = 0 then (False, before)
      else (False, fst (steps ! (currentStep - 1)), Some (snd (steps ! (currentStep - 1)))))"

definition shown_bar :: "browser \<Rightarrow> bool \<times> nat \<times> step_text option" where
  "shown_bar b = (progress_hidden b, progress_width b, progress_text b)"

text \<open>The relation between the flag, the pending calls and the live timers that every turn
  of the event loop keeps.\<close>

definition run_inv :: "browser \<Rightarrow> bool" where
  "run_inv b =
     (if isRunning (manager b) then
        length (pending_posts b) = 1 \<and>
        (case progressTimer (manager b) of
           None \<Rightarrow> False
         | Some t \<Rightarrow> map fst (intervals b) = [t])
      else pending_posts b = [] \<and> intervals b = [])"

subsection \<open>The database schema: tables, keys, checks and cascades\<close>

text \<open>
  A table is the list of its rows. Of each table the columns kept are the keys and the
  columns that a constraint or a statement below reads. A \<^verbatim>\<open>NUMERIC(5,2)\<close> value is the
  integer count of its hundredths, so \<open>8537\<close> is 85.37; the type holds the values of
  absolute value below one thousand. A nullable column is an \<^typ>\<open>'a option\<close>.
\<close>

type_synonym numeric_5_2 = int

definition numeric_5_2_ok :: "numeric_5_2 \<Rightarrow> bool" where
  "numeric_5_2_ok c = (- 99999 \<le> c \<and> c \<le> 99999)"

definition numeric_opt_ok :: "numeric_5_2 option \<Rightarrow> bool" where
  "numeric_opt_ok x = (case x of None \<Rightarrow> True | Some c \<Rightarrow> numeric_5_2_ok c)"

text \<open>The number that a \<^verbatim>\<open>NUMERIC(5,2)\<close> value denotes.\<close>

definition numeric_value :: "numeric_5_2 \<Rightarrow> rat" where
  "numeric_value c = of_int c / 100"

text \<open>The range of an \<^verbatim>\<open>INTEGER\<close> column.\<close>

definition int4_ok :: "int \<Rightarrow> bool" where
  "int4_ok n = (- 2147483648 \<le> n \<and> n \<le> 2147483647)"

definition int4_opt_ok :: "int option \<Rightarrow> bool" where
  "int4_opt_ok x = (case x of None \<Rightarrow> True | Some n \<Rightarrow> int4_ok n)"

record client =
  cl_id :: uuid
  cl_code :: string
  cl_nom_complet :: string
  cl_actif :: "bool option"

record user =
  u_id :: uuid
  u_client_id :: uuid
  u_email :: string

record candidat =
  ca_id :: uuid
  ca_score_completude :: int
  ca_actif :: bool
  ca_blackliste :: bool

record besoin =
  b_id :: uuid
  b_client_id :: uuid
  b_poste_recherche :: string
  b_seuil_score_min :: int
  b_nb_candidats_souhaites :: int
  b_statut :: string

record matching =
  m_id :: uuid
  m_besoin_id :: uuid
  m_candidat_id :: uuid
  m_client_id :: uuid
  score_total :: numeric_5_2
  score_competences :: "numeric_5_2 option"
  score_localisation :: "numeric_5_2 option"
  score_disponibilite :: "numeric_5_2 option"
  score_financier :: "numeric_5_2 option"
  score_experience :: "numeric_5_2 option"
  m_points_forts :: "string list"
  m_points_faibles :: "string list"
  m_rang :: "int option"
  analyse_ia :: "string option"
  utilise_ia :: bool

record candidature =
  cd_id :: uuid
  cd_matching_id :: "uuid option"
  cd_besoin_id :: uuid
  cd_candidat_id :: uuid
  cd_client_id :: uuid
  cd_statut :: string

record db =
  clients :: "client list"
  users :: "user list"
  candidats :: "candidat list"
  besoins :: "besoin list"
  matchings :: "matching list"
  candidatures :: "candidature list"

definition empty_db :: db where
  "empty_db =
     \<lparr>clients = [], users = [], candidats = [], besoins = [], matchings = [],
      candidatures = []\<rparr>"

datatype db_error =
    string_data_right_truncation
  | numeric_value_out_of_range
  | check_violation
  | unique_violation
  | foreign_key_violation

text \<open>\<^verbatim>\<open>CHECK (code ~ '^[a-z0-9_]+$')\<close>.\<close>

definition code_char :: "char \<Rightarrow> bool" where
  "code_char c =
     (let n = (of_char c :: nat) in (97 \<le> n \<and> n \<le> 122) \<or> (48 \<le> n \<and> n \<le> 57) \<or> n = 95)"

definition code_ok :: "string \<Rightarrow> bool" where
  "code_ok s = (s \<noteq> [] \<and> list_all code_char s)"

definition statut_ok :: "string \<Rightarrow> bool" where
  "statut_ok s = (s \<in> set [''ouvert'', ''en_cours'', ''pourvue'', ''annule''])"

text \<open>The check on \<^verbatim>\<open>candidatures.statut\<close>.\<close>

definition candidature_statut_ok :: "string \<Rightarrow> bool" where
  "candidature_statut_ok s =
     (s \<in> set [''nouveau'', ''shortliste'', ''envoye_client'', ''en_attente'', ''selectionne'',
               ''refuse'', ''entretien_planifie'', ''approuve'', ''contrat_envoye'',
               ''en_mission'', ''desiste'', ''mission_terminee''])"

text \<open>\<^verbatim>\<open>INSERT\<close> of one row: the values must fit the types of their columns
  (\<^verbatim>\<open>VARCHAR(n)\<close>, \<^verbatim>\<open>INTEGER\<close>, \<^verbatim>\<open>NUMERIC(5,2)\<close>), then come the checks of the row,
  the unique indexes and the foreign keys.\<close>

definition insert_client :: "client \<Rightarrow> db \<Rightarrow> db_error + db" where
  "insert_client c d =
     (if length (cl_code c) > 50 \<or> length (cl_nom_complet c) > 200
      then Inl string_data_right_truncation
      else if \<not> code_ok (cl_code c) then Inl check_violation
      else if cl_id c \<in> set (map cl_id (clients d)) then Inl unique_violation
      else if cl_code c \<in> set (map cl_code (clients d)) then Inl unique_violation
      else Inr (d\<lparr>clients := clients d @ [c]\<rparr>))"

definition insert_user :: "user \<Rightarrow> db \<Rightarrow> db_error + db" where
  "insert_user u d =
     (if length (u_email u) > 255 then Inl string_data_right_truncation
      else if u_id u \<in> set (map u_id (users d)) then Inl unique_violation
      else if u_email u \<in> set (map u_email (users d)) then Inl unique_violation
      else if u_client_id u \<notin> set (map cl_id (clients d)) then Inl foreign_key_violation
      else Inr (d\<lparr>users := users d @ [u]\<rparr>))"

definition insert_candidat :: "candidat \<Rightarrow> db \<Rightarrow> db_error + db" where
  "insert_candidat c d =
     (if \<not> int4_ok (ca_score_completude c) then Inl numeric_value_out_of_range
      else if \<not> (0 \<le> ca_score_completude c \<and> ca_score_completude c \<le> 100)
      then Inl check_violation
      else if ca_id c \<in> set (map ca_id (candidats d)) then Inl unique_violation
      else Inr (d\<lparr>candidats := candidats d @ [c]\<rparr>))"

definition insert_besoin :: "besoin \<Rightarrow> db \<Rightarrow> db_error + db" where
  "insert_besoin b d =
     (if length (b_poste_recherche b) > 200 \<or> length (b_statut b) > 30
      then Inl string_data_right_truncation
      else if \<not> int4_ok (b_seuil_score_min b) \<or> \<not> int4_ok (b_nb_candidats_souhaites b)
      then Inl numeric_value_out_of_range
      else if \<not> statut_ok (b_statut b) then Inl check_violation
      else if b_id b \<in> set (map b_id (besoins d)) then Inl unique_violation
      else if b_client_id b \<notin> set (map cl_id (clients d)) then Inl foreign_key_violation
      else Inr (d\<lparr>besoins := besoins d @ [b]\<rparr>))"

text \<open>The checks of a \<^verbatim>\<open>matchings\<close> row: the range of each \<^verbatim>\<open>NUMERIC(5,2)\<close> column and of
  the \<^verbatim>\<open>INTEGER\<close> column \<^verbatim>\<open>rang\<close>, and \<^verbatim>\<open>CHECK (score_total BETWEEN 0 AND 100)\<close>, the
  only check of the table.\<close>

definition matching_numeric_ok :: "matching \<Rightarrow> bool" where
  "matching_numeric_ok m =
     (numeric_5_2_ok (score_total m) \<and> numeric_opt_ok (score_competences m) \<and>
      numeric_opt_ok (score_localisation m) \<and> numeric_opt_ok (score_disponibilite m) \<and>
      numeric_opt_ok (score_financier m) \<and> numeric_opt_ok (score_experience m) \<and>
      int4_opt_ok (m_rang m))"

definition score_total_check :: "matching \<Rightarrow> bool" where
  "score_total_check m = (0 \<le> score_total m \<and> score_total m \<le> 100 * 100)"

definition pair_of :: "matching \<Rightarrow> uuid \<times> uuid" where
  "pair_of m = (m_besoin_id m, m_candidat_id m)"

definition insert_matching :: "matching \<Rightarrow> db \<Rightarrow> db_error + db" where
  "insert_matching m d =
     (if \<not> matching_numeric_ok m then Inl numeric_value_out_of_range
      else if \<not> score_total_check m then Inl check_violation
      else if m_id m \<in> set (map m_id (matchings d)) then Inl unique_violation
      else if pair_of m \<in> set (map pair_of (matchings d)) then Inl unique_violation
      else if m_besoin_id m \<notin> set (map b_id (besoins d)) then Inl foreign_key_violation
      else if m_candidat_id m \<notin> set (map ca_id (candidats d)) then Inl foreign_key_violation
      else if m_client_id m \<notin> set (map cl_id (clients d)) then Inl foreign_key_violation
      else Inr (d\<lparr>matchings := matchings d @ [m]\<rparr>))"

definition insert_candidature :: "candidature \<Rightarrow> db \<Rightarrow> db_error + db" where
  "insert_candidature c d =
     (if length (cd_statut c) > 30 then Inl string_data_right_truncation
      else if \<not> candidature_statut_ok (cd_statut c) then Inl check_violation
      else if cd_id c \<in> set (map cd_id (candidatures d)) then Inl unique_violation
      else if (case cd_matching_id c of
                 None \<Rightarrow> False
               | Some i \<Rightarrow> i \<notin> set (map m_id (matchings d))) then Inl foreign_key_violation
      else if cd_besoin_id c \<notin> set (map b_id (besoins d)) then Inl foreign_key_violation
      else if cd_candidat_id c \<notin> set (map ca_id (candidats d)) then Inl foreign_key_violation
      else if cd_client_id c \<notin> set (map cl_id (clients d)) then Inl foreign_key_violation
      else Inr (d\<lparr>candidatures := candidatures d @ [c]\<rparr>))"

text \<open>
  \<^verbatim>\<open>DELETE\<close> of the row with a given key and what \<^verbatim>\<open>ON DELETE CASCADE\<close> and
  \<^verbatim>\<open>ON DELETE SET NULL\<close> do to the rows that refer to it. \<open>drop_matchings\<close> removes the
  \<^verbatim>\<open>matchings\<close> rows that a predicate selects and clears
  \<^verbatim>\<open>candidatures.matching_id\<close> where it pointed to one of them.
\<close>

definition drop_matchings :: "(matching \<Rightarrow> bool) \<Rightarrow> db \<Rightarrow> db" where
  "drop_matchings gone d =
     (let dead = map m_id (filter gone (matchings d))
      in d\<lparr>matchings := filter (\<lambda>m. \<not> gone m) (matchings d),
           candidatures :=
             map (\<lambda>c. case cd_matching_id c of
                         None \<Rightarrow> c
                       | Some i \<Rightarrow> if i \<in> set dead then c\<lparr>cd_matching_id := None\<rparr> else c)
                 (candidatures d)\<rparr>)"

definition delete_besoin :: "uuid \<Rightarrow> db \<Rightarrow> db" where
  "delete_besoin k d =
     (let d1 = d\<lparr>besoins := filter (\<lambda>b. b_id b \<noteq> k) (besoins d),
                 candidatures := filter (\<lambda>c. cd_besoin_id c \<noteq> k) (candidatures d)\<rparr>
      in drop_matchings (\<lambda>m. m_besoin_id m = k) d1)"

definition delete_candidat :: "uuid \<Rightarrow> db \<Rightarrow> db" where
  "delete_candidat k d =
     (let d1 = d\<lparr>candidats := filter (\<lambda>c. ca_id c \<noteq> k) (candidats d),
                 candidatures := filter (\<lambda>c. cd_candidat_id c \<noteq> k) (candidatures d)\<rparr>
      in drop_matchings (\<lambda>m. m_candidat_id m = k) d1)"

text \<open>Deleting a client removes its users and its needs, with the cascade of each need,
  and the \<^verbatim>\<open>matchings\<close> and \<^verbatim>\<open>candidatures\<close> rows whose own \<^verbatim>\<open>client_id\<close> is the client.\<close>

definition delete_client :: "uuid \<Rightarrow> db \<Rightarrow> db" where
  "delete_client k d =
     (let owned = map b_id (filter (\<lambda>b. b_client_id b = k) (besoins d));
          d1 = d\<lparr>clients := filter (\<lambda>c. cl_id c \<noteq> k) (clients d),
                 users := filter (\<lambda>u. u_client_id u \<noteq> k) (users d),
                 besoins := filter (\<lambda>b. b_client_id b \<noteq> k) (besoins d),
                 candidatures :=
                   filter (\<lambda>c. cd_client_id c \<noteq> k \<and> cd_besoin_id c \<notin> set owned)
                          (candidatures d)\<rparr>
      in drop_matchings (\<lambda>m. m_client_id m = k \<or> m_besoin_id m \<in> set owned) d1)"

definition delete_user :: "uuid \<Rightarrow> db \<Rightarrow> db" where
  "delete_user k d = d\<lparr>users := filter (\<lambda>u. u_id u \<noteq> k) (users d)\<rparr>"

definition delete_candidature :: "uuid \<Rightarrow> db \<Rightarrow> db" where
  "delete_candidature k d = d\<lparr>candidatures := filter (\<lambda>c. cd_id c \<noteq> k) (candidatures d)\<rparr>"

subsection \<open>The write of the engine\<close>

text \<open>
  Modelled from the spec: \<^verbatim>\<open>upsert_match(MatchResult)\<close>, the write of the orchestrator, whose
  code is not among the sources. The spec: persistence performs an upsert per (need,
  candidate) keyed by the uniqueness invariant, so results are replaced in place rather
  than accumulated. A row for the pair keeps its \<^verbatim>\<open>id\<close>, its need, candidate and client and
  takes the new scores, rank and explanations; without such a row the match is inserted.
\<close>

definition rescored :: "matching \<Rightarrow> matching \<Rightarrow> matching" where
  "rescored new old =
     old\<lparr>score_total := score_total new,
         score_competences := score_competences new,
         score_localisation := score_localisation new,
         score_disponibilite := score_disponibilite new,
         score_financier := score_financier new,
         score_experience := score_experience new,
         m_points_forts := m_points_forts new,
         m_points_faibles := m_points_faibles new,
         m_rang := m_rang new,
         analyse_ia := analyse_ia new,
         utilise_ia := utilise_ia new\<rparr>"

definition upsert_match :: "matching \<Rightarrow> db \<Rightarrow> db_error + db" where
  "upsert_match m d =
     (if pair_of m \<in> set (map pair_of (matchings d)) then
        (if \<not> matching_numeric_ok m then Inl numeric_value_out_of_range
         else if \<not> score_total_check m then Inl check_violation
         else Inr (d\<lparr>matchings :=
                       map (\<lambda>x. if pair_of x = pair_of m then rescored m x else x)
                           (matchings d)\<rparr>))
      else insert_matching m d)"

text \<open>The statements that reach the store: the inserts and deletes of the schema and the
  upsert of the engine. A rejected statement leaves the store as it was.\<close>

datatype db_op =
    InsertClient client
  | InsertUser user
  | InsertCandidat candidat
  | InsertBesoin besoin
  | InsertMatching matching
  | InsertCandidature candidature
  | DeleteClient uuid
  | DeleteUser uuid
  | DeleteCandidat uuid
  | DeleteBesoin uuid
  | DeleteCandidature uuid
  | UpsertMatch matching

fun apply_op :: "db_op \<Rightarrow> db \<Rightarrow> db_error + db" where
  "apply_op (InsertClient c) d = insert_client c d"
| "apply_op (InsertUser u) d = insert_user u d"
| "apply_op (InsertCandidat c) d = insert_candidat c d"
| "apply_op (InsertBesoin b) d = insert_besoin b d"
| "apply_op (InsertMatching m) d = insert_matching m d"
| "apply_op (InsertCandidature c) d = insert_candidature c d"
| "apply_op (DeleteClient k) d = Inr (delete_client k d)"
| "apply_op (DeleteUser k) d = Inr (delete_user k d)"
| "apply_op (DeleteCandidat k) d = Inr (delete_candidat k d)"
| "apply_op (DeleteBesoin k) d = Inr (delete_besoin k d)"
| "apply_op (DeleteCandidature k) d = Inr (delete_candidature k d)"
| "apply_op (UpsertMatch m) d = upsert_match m d"

definition exec :: "db_op \<Rightarrow> db \<Rightarrow> db" where
  "exec op d = (case apply_op op d of Inl _ \<Rightarrow> d | Inr d' \<Rightarrow> d')"

definition run_ops :: "db_op list \<Rightarrow> db \<Rightarrow> db" where
  "run_ops ops d = foldl (\<lambda>s op. exec op s) d ops"

text \<open>The need of a matching, and what the statements keep true of the store: every
  matching carries the client of its need (\<open>tenant_ok\<close>); the rows that a matching refers to
  exist (\<open>fk_ok\<close>); the keys of the needs and the pairs of the matchings are distinct.\<close>

definition need_of :: "db \<Rightarrow> matching \<Rightarrow> besoin option" where
  "need_of d m = find (\<lambda>b. b_id b = m_besoin_id m) (besoins d)"

definition tenant_ok :: "db \<Rightarrow> bool" where
  "tenant_ok d =
     list_all (\<lambda>m. case need_of d m of None \<Rightarrow> False | Some b \<Rightarrow> b_client_id b = m_client_id m)
       (matchings d)"

definition fk_ok :: "db \<Rightarrow> bool" where
  "fk_ok d =
     list_all (\<lambda>m. m_besoin_id m \<in> set (map b_id (besoins d)) \<and>
                    m_candidat_id m \<in> set (map ca_id (candidats d)) \<and>
                    m_client_id m \<in> set (map cl_id (clients d)))
       (matchings d)"

definition wf_db :: "db \<Rightarrow> bool" where
  "wf_db d = (fk_ok d \<and> distinct (map b_id (besoins d)) \<and> distinct (map pair_of (matchings d)))"




subsection \<open>The view of the statistics per client\<close>










subsection \<open>Concrete inputs\<close>

text \<open>A results view loaded from two matchings whose \<^verbatim>\<open>score_total\<close> is 0.92 and 0.60,
  with the score filter set to 75, on a page that has the three filter controls.\<close>

definition example_json :: "uuid \<Rightarrow> rat \<Rightarrow> matching_json" where
  "example_json i t =
     \<lparr>j_id = i, j_candidat_id = ''c'' @ i, j_candidat_nom = None, j_besoin_id = ''b1'',
      j_poste_recherche = Some ''Cariste'', j_score_total = t, j_rang = None,
      j_telephone = None, j_email = None, j_disponibilite = None, j_experience = None,
      j_points_forts = None, j_points_faibles = None\<rparr>"

definition example_view :: results_manager where
  "example_view =
     (processMatchings [example_json ''m1'' (92 / 100), example_json ''m2'' (60 / 100)]
        ResultsManager_new)
     \<lparr>filters := \<lparr>filter_score = ''75'', filter_status = [], filter_poste = []\<rparr>,
      currentPage := 3\<rparr>"

definition example_page :: results_page where
  "example_page =
     \<lparr>has_filter_score = True, has_filter_status = True, has_filter_poste = True\<rparr>"

text \<open>A response with the field names of the specification, and one with the names that
  \<^verbatim>\<open>runMatching\<close> reads.\<close>

definition spec_response :: json where
  "spec_response =
     JObj [(''needs_processed'', JNum 3), (''matchings_created'', JNum 5),
           (''duration_ms'', JNum 1200), (''failures'', JArr [])]"

definition read_response :: json where
  "read_response =
     JObj [(''besoins_processed'', JNum 3), (''matchings_created'', JNum 5),
           (''duration_ms'', JNum 1200)]"

text \<open>The same response with the two fields that are not read, a response without any
  field, and a response whose three fields are falsy.\<close>

definition noisy_response :: json where
  "noisy_response =
     JObj [(''needs_processed'', JNum 99), (''failures'', JArr [JStr ''b7'']),
           (''besoins_processed'', JNum 3), (''matchings_created'', JNum 5),
           (''duration_ms'', JNum 1200)]"

definition empty_response :: json where
  "empty_response = JObj []"

definition falsy_response :: json where
  "falsy_response =
     JObj [(''besoins_processed'', JNull), (''matchings_created'', JStr []),
           (''duration_ms'', JNum 0)]"



text \<open>A store with the clients A and B, the candidate c1, the need b1 of client A and the
  need b2 of client B.\<close>

definition example_client :: "uuid \<Rightarrow> string \<Rightarrow> client" where
  "example_client i c =
     \<lparr>cl_id = i, cl_code = c, cl_nom_complet = ''Agence '' @ i, cl_actif = Some True\<rparr>"

definition example_candidat :: "uuid \<Rightarrow> candidat" where
  "example_candidat i =
     \<lparr>ca_id = i, ca_score_completude = 80, ca_actif = True, ca_blackliste = False\<rparr>"

definition example_besoin :: "uuid \<Rightarrow> uuid \<Rightarrow> besoin" where
  "example_besoin i c =
     \<lparr>b_id = i, b_client_id = c, b_poste_recherche = ''Cariste'', b_seuil_score_min = 40,
      b_nb_candidats_souhaites = 5, b_statut = ''ouvert''\<rparr>"

definition example_matching :: "uuid \<Rightarrow> uuid \<Rightarrow> uuid \<Rightarrow> uuid \<Rightarrow> numeric_5_2 \<Rightarrow> matching" where
  "example_matching i b c t sc =
     \<lparr>m_id = i, m_besoin_id = b, m_candidat_id = c, m_client_id = t, score_total = sc,
      score_competences = Some 9000, score_localisation = Some 8000,
      score_disponibilite = None, score_financier = Some 7000, score_experience = Some 6000,
      m_points_forts = [], m_points_faibles = [], m_rang = Some 1, analyse_ia = None,
      utilise_ia = False\<rparr>"

definition base_ops :: "db_op list" where
  "base_ops =
     [InsertClient (example_client ''A'' ''alpha''), InsertClient (example_client ''B'' ''beta''),
      InsertCandidat (example_candidat ''c1''),
      InsertBesoin (example_besoin ''b1'' ''A''), InsertBesoin (example_besoin ''b2'' ''B'')]"

text \<open>The store after a raw \<^verbatim>\<open>INSERT\<close> of a matching of need b1, which client A owns, with the
  \<^verbatim>\<open>client_id\<close> of client B.\<close>

definition foreign_tenant_ops :: "db_op list" where
  "foreign_tenant_ops =
     base_ops @ [InsertMatching (example_matching ''m1'' ''b1'' ''c1'' ''B'' 8500)]"

text \<open>A row with a total of 85.00 and sub-scores of 150.00 and -5.00.\<close>

definition stored_85 :: matching where
  "stored_85 =
     (example_matching ''m1'' ''b1'' ''c1'' ''A'' 8500)
       \<lparr>score_competences := Some 15000, score_localisation := Some (- 500)\<rparr>"

text \<open>The store with one matching of need b1 and candidate c1, and a second scoring of the
  same pair.\<close>

definition one_pair_ops :: "db_op list" where
  "one_pair_ops = base_ops @ [InsertMatching (example_matching ''m1'' ''b1'' ''c1'' ''A'' 8500)]"

definition rescoring :: matching where
  "rescoring = (example_matching ''m2'' ''b1'' ''c1'' ''A'' 9000)\<lparr>m_rang := Some 2\<rparr>"

section \<open>Properties\<close>

subsection \<open>JavaScript primitives\<close>

lemma js_round_of_int: "js_round (of_int k) = k"
  by (simp add: js_round_def floor_eq_iff)

lemma js_round_numeral: "js_round (numeral n) = numeral n"
  using js_round_of_int [of "numeral n"] by simp

lemma js_round_numeric_value: "js_round (numeric_value c * 100) = c"
  by (simp add: numeric_value_def js_round_of_int)

lemma split_on_nonempty: "split_on c s \<noteq> []"
  by (induction s) (auto split: list.splits)

lemma split_on_no_sep: "c \<notin> set s \<Longrightarrow> split_on c s = [s]"
  by (induction s) auto

lemma length_split_on: "length (split_on c s) = Suc (length (filter (\<lambda>x. x = c) s))"
  by (induction s) (auto split: list.splits)

lemma last_split_on_append:
  "c \<notin> set e \<Longrightarrow> last (split_on c (pre @ c # e)) = e"
proof (induction pre)
  case Nil
  then show ?case by (simp add: split_on_no_sep)
next
  case (Cons x pre)
  have "length (split_on c (pre @ c # e)) \<ge> 2"
    by (simp add: length_split_on)
  then obtain y z zs where "split_on c (pre @ c # e) = y # z # zs"
    by (cases "split_on c (pre @ c # e)" rule: list.exhaust) (auto simp: Suc_le_eq neq_Nil_conv)
  with Cons show ?case by auto
qed

text \<open>With a dot in the name, \<^verbatim>\<open>split('.').pop()\<close> is the text after the last dot;
  without one it is the whole name.\<close>

lemma pop_split_on_after_last_sep:
  "c \<notin> set e \<Longrightarrow> pop (split_on c (pre @ c # e)) = Some e"
  by (simp add: pop_def split_on_nonempty last_split_on_append)

lemma pop_split_on_no_sep: "c \<notin> set s \<Longrightarrow> pop (split_on c s) = Some s"
  by (simp add: pop_def split_on_no_sep)

lemma parseInt_empty: "parseInt [] = None"
  by (simp add: parseInt_def strip_hex_prefix_def parse_digits_def)

subsection \<open>UploadManager\<close>

lemma sizeMB_gt_iff:
  "((of_nat n :: rat) / (1024 * 1024) > of_nat MAX_FILE_SIZE) = (n > 10 * 1024 * 1024)"
proof -
  have "((of_nat n :: rat) / (1024 * 1024) > 10) = ((of_nat n :: rat) > of_nat (10 * 1024 * 1024))"
    by (simp add: field_simps)
  also have "\<dots> = (n > 10 * 1024 * 1024)"
    by (simp only: of_nat_less_iff)
  finally show ?thesis by (simp add: MAX_FILE_SIZE_def)
qed

text \<open>What \<^verbatim>\<open>validateFile\<close> decides: the computed extension is allowed and the size is at
  most ten times 1024 * 1024 bytes.\<close>

lemma validateFile_iff:
  "fst (validateFile f) =
     (file_ext f \<in> set ALLOWED_EXTENSIONS \<and> file_size f \<le> 10 * 1024 * 1024)"
  using sizeMB_gt_iff [of "file_size f"]
  by (auto simp: validateFile_def Let_def)

lemma file_ext_with_dot:
  "CHR ''.'' \<notin> set e \<Longrightarrow> file_ext \<lparr>file_name = pre @ CHR ''.'' # e, file_size = n\<rparr> = ''.'' @ toLowerCase e"
  by (simp add: file_ext_def pop_split_on_after_last_sep)

lemma file_ext_without_dot:
  "CHR ''.'' \<notin> set s \<Longrightarrow> file_ext \<lparr>file_name = s, file_size = n\<rparr> = ''.'' @ toLowerCase s"
  by (simp add: file_ext_def pop_split_on_no_sep)

lemma handleFileSelect_rejected:
  "\<not> fst (validateFile f) \<Longrightarrow> handleFileSelect f ty um = um"
  by (simp add: handleFileSelect_def)

text \<open>
  C9. \<^verbatim>\<open>validateFile\<close> is to accept a file exactly when the text after the last dot of
  its name is csv, xlsx or xls, whatever the case, and its size is at most 10 MB. A file
  whose name is just \<^verbatim>\<open>csv\<close> has no dot and no extension, and yet \<^verbatim>\<open>validateFile\<close> accepts
  it and \<^verbatim>\<open>handleFileSelect\<close> stores it: \<^verbatim>\<open>split('.').pop()\<close> returns the whole name.
\<close>

theorem validateFile_accepts_name_without_dot:
  "CHR ''.'' \<notin> set ''csv'' \<and>
   validateFile \<lparr>file_name = ''csv'', file_size = 100\<rparr> = (True, []) \<and>
   files (handleFileSelect \<lparr>file_name = ''csv'', file_size = 100\<rparr> Candidats UploadManager_new)
     Candidats = Some \<lparr>file_name = ''csv'', file_size = 100\<rparr>"
  by (simp add: handleFileSelect_def validateFile_def file_ext_def pop_def toLowerCase_def
      lower_char_def ALLOWED_EXTENSIONS_def MAX_FILE_SIZE_def)

subsection \<open>ResultsManager\<close>

text \<open>
  C10. \<^verbatim>\<open>applyFilters\<close> leaves in \<^verbatim>\<open>filteredResults\<close> a sublist of the loaded results
  and sets the current page to 1; when the score filter reads as the number \<open>n\<close>, every
  entry kept has a score of at least \<open>n\<close>; and \<^verbatim>\<open>clearFilters\<close>, on a page that has the
  three filter controls, makes \<^verbatim>\<open>filteredResults\<close> the full list of loaded results.
\<close>

theorem applyFilters_clearFilters:
  "subseq (filteredResults (applyFilters rm)) (results rm) \<and>
   results (applyFilters rm) = results rm \<and>
   currentPage (applyFilters rm) = 1 \<and>
   (parseInt (filter_score (filters rm)) = Some n \<longrightarrow>
      (\<forall>r \<in> set (filteredResults (applyFilters rm)). n \<le> score r)) \<and>
   (has_filter_score pg \<and> has_filter_status pg \<and> has_filter_poste pg \<longrightarrow>
      filteredResults (fst (clearFilters pg rm)) = results rm \<and>
      results (fst (clearFilters pg rm)) = results rm)"
proof (intro conjI impI)
  show "subseq (filteredResults (applyFilters rm)) (results rm)"
    by (simp add: applyFilters_def)
  show "results (applyFilters rm) = results rm"
    by (simp add: applyFilters_def)
  show "currentPage (applyFilters rm) = 1"
    by (simp add: applyFilters_def)
next
  assume p: "parseInt (filter_score (filters rm)) = Some n"
  then have ne: "filter_score (filters rm) \<noteq> []"
    using parseInt_empty by auto
  show "\<forall>r \<in> set (filteredResults (applyFilters rm)). n \<le> score r"
    using p ne by (auto simp: applyFilters_def keeps_def split: if_splits)
next
  assume "has_filter_score pg \<and> has_filter_status pg \<and> has_filter_poste pg"
  then show "filteredResults (fst (clearFilters pg rm)) = results rm"
    and "results (fst (clearFilters pg rm)) = results rm"
    by (simp_all add: clearFilters_def Let_def)
qed

theorem applyFilters_clearFilters_witness:
  "parseInt (filter_score (filters example_view)) = Some 75 \<and>
   map score (results example_view) = [92, 60] \<and>
   map score (filteredResults (applyFilters example_view)) = [92] \<and>
   list_all (\<lambda>r. 75 \<le> score r) (filteredResults (applyFilters example_view)) \<and>
   currentPage example_view = 3 \<and> currentPage (applyFilters example_view) = 1 \<and>
   has_filter_score example_page \<and> has_filter_status example_page \<and>
   has_filter_poste example_page \<and>
   filteredResults (fst (clearFilters example_page (applyFilters example_view))) =
     results example_view"
proof -
  have p: "parseInt (filter_score (filters example_view)) = Some 75"
    by code_simp
  have s1: "map score (results example_view) = [92, 60]"
    by code_simp
  have s2: "map score (filteredResults (applyFilters example_view)) = [92]"
    by code_simp
  have c: "currentPage example_view = 3"
    by (simp add: example_view_def)
  have pg: "has_filter_score example_page \<and> has_filter_status example_page \<and>
            has_filter_poste example_page"
    by (simp add: example_page_def)
  note t1 = applyFilters_clearFilters [of example_view 75 example_page]
  note t2 = applyFilters_clearFilters [of "applyFilters example_view" 75 example_page]
  from t1 p have ge: "list_all (\<lambda>r. 75 \<le> score r) (filteredResults (applyFilters example_view))"
    unfolding list_all_iff by blast
  from t1 have pg1: "currentPage (applyFilters example_view) = 1"
    by blast
  from t2 t1 pg
  have cl: "filteredResults (fst (clearFilters example_page (applyFilters example_view))) =
            results example_view"
    by simp
  from p s1 s2 ge c pg1 pg cl show ?thesis by simp
qed

subsection \<open>MatchingManager\<close>

text \<open>The invariant holds at the start and after every turn of the event loop.\<close>

lemma run_inv_init: "run_inv browser_init"
  by (simp add: run_inv_def browser_init_def MatchingManager_new_def)

lemma map_fst_rearm:
  "map fst (map (\<lambda>(i, d, k). if i = tid then (i, d', k) else (i, d, k)) xs) = map fst xs"
  by (induction xs) auto

lemma map_fst_advance:
  "map fst (map (\<lambda>(i, d, k). if i = tid then (i, d, Suc k) else (i, d, k)) xs) = map fst xs"
  by (induction xs) auto

text \<open>A firing writes the bar and the timers only, and keeps the handles of the timers.\<close>

lemma interval_callback_keeps:
  "manager (interval_callback t b) = manager b"
  "pending_posts (interval_callback t b) = pending_posts b"
  "map fst (intervals (interval_callback t b)) = map fst (intervals b)"
  "hide_timeouts (interval_callback t b) = hide_timeouts b"
  "now (interval_callback t b) = now b"
  "progress_hidden (interval_callback t b) = progress_hidden b"
  by (auto simp: interval_callback_def Let_def map_fst_rearm map_fst_advance
      split: option.splits prod.splits)

lemma run_inv_step: "run_inv b \<Longrightarrow> run_inv (step e b)"
proof (cases e)
  case (RunClick c)
  then show "run_inv b \<Longrightarrow> run_inv (step e b)"
    by (auto simp: run_inv_def runMatching_def simulateProgress_def Let_def split: option.splits)
next
  case (PreviewClick a)
  then show "run_inv b \<Longrightarrow> run_inv (step e b)"
    by (auto simp: run_inv_def previewMatching_def split: option.splits preview_answer.splits)
next
  case (Tick t)
  have "intervals (interval_callback t b) = [] \<longleftrightarrow> intervals b = []"
    using interval_callback_keeps(3) [of t b] by (metis map_is_Nil_conv)
  with Tick show "run_inv b \<Longrightarrow> run_inv (step e b)"
    by (auto simp: run_inv_def interval_callback_keeps split: option.splits)
next
  case (PostResolved i r)
  then show "run_inv b \<Longrightarrow> run_inv (step e b)"
    by (auto simp: run_inv_def runMatching_resolved_def runMatching_finally_def
        runMatching_catch_def clearInterval_def remove_nth_def Let_def
        split: option.splits if_splits)
next
  case (PostRejected i m)
  then show "run_inv b \<Longrightarrow> run_inv (step e b)"
    by (auto simp: run_inv_def runMatching_rejected_def runMatching_finally_def
        runMatching_catch_def clearInterval_def remove_nth_def Let_def
        split: option.splits if_splits)
next
  case HideTimeout
  then show "run_inv b \<Longrightarrow> run_inv (step e b)"
    by (auto simp: run_inv_def hide_progress_def split: option.splits list.splits)
qed (auto simp: run_inv_def set_config_def split: option.splits)

lemma run_inv_run_events: "run_inv b \<Longrightarrow> run_inv (run_events es b)"
  unfolding run_events_def
  by (induction es arbitrary: b) (simp_all add: run_inv_step)

lemma run_events_Cons: "run_events (e # es) b = run_events es (step e b)"
  by (simp add: run_events_def)

lemma run_events_Nil: "run_events [] b = b"
  by (simp add: run_events_def)

text \<open>
  C4. A run requested while a run is in progress is refused: with \<^verbatim>\<open>isRunning\<close> set,
  \<^verbatim>\<open>runMatching\<close> only shows the warning toast, whatever the answer to \<^verbatim>\<open>confirm\<close>, and so
  does \<^verbatim>\<open>previewMatching\<close>; no field of the manager changes, no call is sent and no timer
  is started. After any sequence of events at most one call to the run endpoint is pending,
  and one is pending exactly when \<^verbatim>\<open>isRunning\<close> is set.
\<close>

theorem at_most_one_run_in_flight:
  "length (pending_posts (run_events es browser_init)) \<le> 1 \<and>
   isRunning (manager (run_events es browser_init)) =
     (pending_posts (run_events es browser_init) \<noteq> []) \<and>
   (isRunning (manager b) \<longrightarrow>
      runMatching confirmed b =
        b\<lparr>toasts := toasts b @ [(Un_matching_est_deja_en_cours, warning)]\<rparr> \<and>
      previewMatching ans b =
        b\<lparr>toasts := toasts b @ [(Un_matching_est_deja_en_cours, warning)]\<rparr>)"
proof -
  have inv: "run_inv (run_events es browser_init)"
    by (simp add: run_inv_run_events run_inv_init)
  from inv have "length (pending_posts (run_events es browser_init)) \<le> 1"
    by (auto simp: run_inv_def split: if_splits)
  moreover from inv have "isRunning (manager (run_events es browser_init)) =
      (pending_posts (run_events es browser_init) \<noteq> [])"
    by (auto simp: run_inv_def split: if_splits)
  ultimately show ?thesis
    by (simp add: runMatching_def previewMatching_def)
qed

theorem at_most_one_run_in_flight_witness:
  "isRunning (manager (run_events [RunClick True] browser_init)) \<and>
   pending_posts (run_events [RunClick True] browser_init) = [requestData default_config] \<and>
   pending_posts (run_events [RunClick True, RunClick True] browser_init) =
     [requestData default_config] \<and>
   length (pending_posts (run_events [RunClick True, RunClick True] browser_init)) \<le> 1 \<and>
   runMatching True (run_events [RunClick True] browser_init) =
     (run_events [RunClick True] browser_init)
       \<lparr>toasts := [(Un_matching_est_deja_en_cours, warning)]\<rparr> \<and>
   manager (runMatching True (run_events [RunClick True] browser_init)) =
     manager (run_events [RunClick True] browser_init)"
proof -
  let ?b = "run_events [RunClick True] browser_init"
  have r: "isRunning (manager ?b)"
    by (simp add: run_events_def runMatching_def simulateProgress_def browser_init_def
        MatchingManager_new_def Let_def)
  have t: "toasts ?b = []"
    by (simp add: run_events_def runMatching_def simulateProgress_def browser_init_def
        MatchingManager_new_def Let_def)
  have p1: "pending_posts ?b = [requestData default_config]"
    by (simp add: run_events_def runMatching_def simulateProgress_def browser_init_def
        MatchingManager_new_def Let_def)
  have e: "run_events [RunClick True, RunClick True] browser_init = runMatching True ?b"
    by (simp add: run_events_def)
  note a = at_most_one_run_in_flight
    [of "[RunClick True, RunClick True]" ?b True "Preview_lengths 1 1"]
  from a r t have s: "runMatching True ?b =
      ?b\<lparr>toasts := [(Un_matching_est_deja_en_cours, warning)]\<rparr>"
    by simp
  from a have l: "length (pending_posts (run_events [RunClick True, RunClick True] browser_init)) \<le> 1"
    by blast
  from s e p1 have p2: "pending_posts (run_events [RunClick True, RunClick True] browser_init) =
      [requestData default_config]"
    by simp
  from s have m: "manager (runMatching True ?b) = manager ?b"
    by simp
  from r p1 p2 l s m show ?thesis by blast
qed

text \<open>One event, other than an answer, of a run whose timer is \<open>t\<close>, on a page where no
  callback that hides the bar is pending.\<close>

lemma step_during_run:
  assumes "isRunning (manager b)" "progressTimer (manager b) = Some t"
    and "intervals b = [(t, due, k)]" "k \<le> length steps" "hide_timeouts b = []"
    and "shown_bar b = bar_at_step k before" "\<not> is_answer e"
  shows "isRunning (manager (step e b)) \<and> progressTimer (manager (step e b)) = Some t \<and>
         hide_timeouts (step e b) = [] \<and>
         (\<exists>due' k'. intervals (step e b) = [(t, due', k')] \<and> k' \<le> length steps \<and>
                    shown_bar (step e b) = bar_at_step k' before)"
proof (cases e)
  case (Tick u)
  show ?thesis
  proof (cases "u = t \<and> due \<le> now b \<and> k < length steps")
    case True
    with assms Tick show ?thesis
      by (auto simp: interval_callback_def Let_def shown_bar_def bar_at_step_def
          split: if_splits)
  next
    case False
    with assms Tick show ?thesis
      by (auto simp: interval_callback_def Let_def shown_bar_def)
  qed
next
  case (RunClick c)
  with assms show ?thesis by (simp add: runMatching_def shown_bar_def)
next
  case (PreviewClick a)
  with assms show ?thesis
    by (simp add: previewMatching_def shown_bar_def)
next
  case HideTimeout
  with assms show ?thesis by (simp add: hide_progress_def)
next
  case (Elapse n)
  with assms show ?thesis by (simp add: shown_bar_def)
qed (use assms in \<open>simp_all add: set_config_def shown_bar_def\<close>)

lemma events_during_run:
  assumes "isRunning (manager b)" "progressTimer (manager b) = Some t"
    and "intervals b = [(t, due, k)]" "k \<le> length steps" "hide_timeouts b = []"
    and "shown_bar b = bar_at_step k before" "list_all (\<lambda>e. \<not> is_answer e) es"
  shows "\<exists>due' k'. intervals (run_events es b) = [(t, due', k')] \<and> k' \<le> length steps \<and>
                   shown_bar (run_events es b) = bar_at_step k' before"
  using assms
proof (induction es arbitrary: b due k)
  case Nil
  then show ?case by (simp add: run_events_Nil)
next
  case (Cons e es)
  from Cons.prems have ne: "\<not> is_answer e" and rest: "list_all (\<lambda>e. \<not> is_answer e) es"
    by simp_all
  from step_during_run [OF Cons.prems(1-6) ne] obtain due' k' where
    s: "isRunning (manager (step e b))" "progressTimer (manager (step e b)) = Some t"
    "hide_timeouts (step e b) = []" "intervals (step e b) = [(t, due', k')]"
    "k' \<le> length steps" "shown_bar (step e b) = bar_at_step k' before"
    by blast
  from Cons.IH [OF s(1,2,4,5,3,6) rest] show ?case
    by (simp add: run_events_Cons)
qed

text \<open>
  On a page where no run is in progress and no callback that hides the bar is pending, the
  bar of a new run shows, whatever events other than the answer follow, what \<open>bar_at_step\<close>
  gives for the \<^verbatim>\<open>currentStep\<close> of the run's timer: it is visible, and after the first
  firing its width and text are the entry of \<^verbatim>\<open>steps\<close> written last.
\<close>

lemma bar_of_undisturbed_run:
  assumes "\<not> isRunning (manager (run_events h browser_init))"
    and "hide_timeouts (run_events h browser_init) = []"
    and "list_all (\<lambda>e. \<not> is_answer e) es"
  shows "\<exists>due k. intervals (run_events es (runMatching True (run_events h browser_init))) =
                   [(next_timer (run_events h browser_init), due, k)] \<and>
                 k \<le> length steps \<and>
                 shown_bar (run_events es (runMatching True (run_events h browser_init))) =
                   bar_at_step k (progress_width (run_events h browser_init),
                                  progress_text (run_events h browser_init))"
proof -
  let ?b = "run_events h browser_init"
  have "run_inv ?b" by (simp add: run_inv_run_events run_inv_init)
  with assms(1) have i: "intervals ?b = []" by (simp add: run_inv_def)
  let ?r = "runMatching True ?b"
  from assms(1,2) i have r: "isRunning (manager ?r)"
    "progressTimer (manager ?r) = Some (next_timer ?b)"
    "intervals ?r = [(next_timer ?b, now ?b + PROGRESS_PERIOD_MS, 0)]"
    "hide_timeouts ?r = []"
    "shown_bar ?r = bar_at_step 0 (progress_width ?b, progress_text ?b)"
    by (simp_all add: runMatching_def simulateProgress_def Let_def shown_bar_def bar_at_step_def)
  from events_during_run [OF r(1,2,3) _ r(4,5) assms(3)] show ?thesis by simp
qed



text \<open>
  C5. The summary shown after a run depends on the response through three fields only,
  \<^verbatim>\<open>besoins_processed\<close>, \<^verbatim>\<open>matchings_created\<close> and \<^verbatim>\<open>duration_ms\<close>: two responses that agree
  on them give the same summary, so \<^verbatim>\<open>needs_processed\<close> and \<^verbatim>\<open>failures\<close> are not read. A
  truthy \<^verbatim>\<open>besoins_processed\<close> or \<^verbatim>\<open>matchings_created\<close> is shown as it is and a missing or
  falsy one as 0; a truthy \<^verbatim>\<open>duration_ms\<close> is shown in seconds and a missing or falsy one as
  \<^verbatim>\<open>'N/A'\<close>. The summary is what the success toast carries.
\<close>

theorem summary_reads_besoins_processed:
  "(js_get r1 ''besoins_processed'' = js_get r2 ''besoins_processed'' \<and>
    js_get r1 ''matchings_created'' = js_get r2 ''matchings_created'' \<and>
    js_get r1 ''duration_ms'' = js_get r2 ''duration_ms'' \<longrightarrow> summary r1 = summary r2) \<and>
   (js_get r ''besoins_processed'' = Some v \<and> truthy v \<longrightarrow> besoins_traites (summary r) = v) \<and>
   (js_get r ''besoins_processed'' = None \<or>
    (js_get r ''besoins_processed'' = Some v \<and> \<not> truthy v) \<longrightarrow>
      besoins_traites (summary r) = JNum 0) \<and>
   (js_get r ''matchings_created'' = Some v \<and> truthy v \<longrightarrow> matchings_crees (summary r) = v) \<and>
   (js_get r ''matchings_created'' = None \<or>
    (js_get r ''matchings_created'' = Some v \<and> \<not> truthy v) \<longrightarrow>
      matchings_crees (summary r) = JNum 0) \<and>
   (js_get r ''duration_ms'' = Some v \<and> truthy v \<longrightarrow> duree (summary r) = Seconds_of v) \<and>
   (js_get r ''duration_ms'' = None \<or>
    (js_get r ''duration_ms'' = Some v \<and> \<not> truthy v) \<longrightarrow>
      duree (summary r) = NA) \<and>
   (r \<noteq> JNull \<longrightarrow>
      toasts (runMatching_resolved r b) =
        toasts b @ [(Matching_termine_avec_succes (summary r), success)])"
proof (intro conjI impI)
  assume "js_get r1 ''besoins_processed'' = js_get r2 ''besoins_processed'' \<and>
    js_get r1 ''matchings_created'' = js_get r2 ''matchings_created'' \<and>
    js_get r1 ''duration_ms'' = js_get r2 ''duration_ms''"
  then show "summary r1 = summary r2"
    by (simp add: summary_def)
next
  assume "js_get r ''besoins_processed'' = Some v \<and> truthy v"
  then show "besoins_traites (summary r) = v"
    by (simp add: summary_def js_or_def)
next
  assume "js_get r ''besoins_processed'' = None \<or>
    (js_get r ''besoins_processed'' = Some v \<and> \<not> truthy v)"
  then show "besoins_traites (summary r) = JNum 0"
    by (auto simp: summary_def js_or_def)
next
  assume "js_get r ''matchings_created'' = Some v \<and> truthy v"
  then show "matchings_crees (summary r) = v"
    by (simp add: summary_def js_or_def)
next
  assume "js_get r ''matchings_created'' = None \<or>
    (js_get r ''matchings_created'' = Some v \<and> \<not> truthy v)"
  then show "matchings_crees (summary r) = JNum 0"
    by (auto simp: summary_def js_or_def)
next
  assume "js_get r ''duration_ms'' = Some v \<and> truthy v"
  then show "duree (summary r) = Seconds_of v"
    by (simp add: summary_def)
next
  assume "js_get r ''duration_ms'' = None \<or>
    (js_get r ''duration_ms'' = Some v \<and> \<not> truthy v)"
  then show "duree (summary r) = NA"
    by (auto simp: summary_def)
next
  assume "r \<noteq> JNull"
  then show "toasts (runMatching_resolved r b) =
        toasts b @ [(Matching_termine_avec_succes (summary r), success)]"
    by (simp add: runMatching_resolved_def runMatching_finally_def clearInterval_def Let_def
        split: option.splits)
qed

text \<open>A response with the field names of the specification: the count of processed needs
  under \<^verbatim>\<open>needs_processed\<close> is 3 and the summary shows 0.\<close>

theorem summary_ignores_needs_processed:
  "js_get spec_response ''needs_processed'' = Some (JNum 3) \<and>
   besoins_traites (summary spec_response) = JNum 0 \<and>
   besoins_traites (summary read_response) = JNum 3"
  by (simp add: spec_response_def read_response_def summary_def js_or_def)

theorem summary_reads_besoins_processed_witness:
  "js_get read_response ''besoins_processed'' = Some (JNum 3) \<and> truthy (JNum 3) \<and>
   js_get read_response ''matchings_created'' = Some (JNum 5) \<and> truthy (JNum 5) \<and>
   js_get read_response ''duration_ms'' = Some (JNum 1200) \<and> truthy (JNum 1200) \<and>
   besoins_traites (summary read_response) = JNum 3 \<and>
   matchings_crees (summary read_response) = JNum 5 \<and>
   duree (summary read_response) = Seconds_of (JNum 1200) \<and>
   js_get noisy_response ''besoins_processed'' = js_get read_response ''besoins_processed'' \<and>
   js_get noisy_response ''matchings_created'' = js_get read_response ''matchings_created'' \<and>
   js_get noisy_response ''duration_ms'' = js_get read_response ''duration_ms'' \<and>
   js_get noisy_response ''needs_processed'' = Some (JNum 99) \<and>
   summary noisy_response = summary read_response \<and>
   js_get empty_response ''besoins_processed'' = None \<and>
   js_get empty_response ''matchings_created'' = None \<and>
   js_get empty_response ''duration_ms'' = None \<and>
   summary empty_response = \<lparr>besoins_traites = JNum 0, matchings_crees = JNum 0, duree = NA\<rparr> \<and>
   js_get falsy_response ''besoins_processed'' = Some JNull \<and> \<not> truthy JNull \<and>
   js_get falsy_response ''matchings_created'' = Some (JStr []) \<and> \<not> truthy (JStr []) \<and>
   js_get falsy_response ''duration_ms'' = Some (JNum 0) \<and> \<not> truthy (JNum 0) \<and>
   summary falsy_response = \<lparr>besoins_traites = JNum 0, matchings_crees = JNum 0, duree = NA\<rparr> \<and>
   read_response \<noteq> JNull \<and>
   toasts (runMatching_resolved read_response browser_init) =
     [(Matching_termine_avec_succes (summary read_response), success)]"
proof -
  have g: "js_get read_response ''besoins_processed'' = Some (JNum 3)"
    "js_get read_response ''matchings_created'' = Some (JNum 5)"
    "js_get read_response ''duration_ms'' = Some (JNum 1200)"
    "js_get noisy_response ''besoins_processed'' = Some (JNum 3)"
    "js_get noisy_response ''matchings_created'' = Some (JNum 5)"
    "js_get noisy_response ''duration_ms'' = Some (JNum 1200)"
    "js_get noisy_response ''needs_processed'' = Some (JNum 99)"
    "js_get empty_response ''besoins_processed'' = None"
    "js_get empty_response ''matchings_created'' = None"
    "js_get empty_response ''duration_ms'' = None"
    "js_get falsy_response ''besoins_processed'' = Some JNull"
    "js_get falsy_response ''matchings_created'' = Some (JStr [])"
    "js_get falsy_response ''duration_ms'' = Some (JNum 0)"
    "read_response \<noteq> JNull"
    by (simp_all add: read_response_def noisy_response_def empty_response_def
        falsy_response_def)
  have t0: "toasts browser_init = []"
    by (simp add: browser_init_def)
  note a = summary_reads_besoins_processed
    [of noisy_response read_response read_response "JNum 3" browser_init]
  note b = summary_reads_besoins_processed
    [of noisy_response read_response read_response "JNum 5" browser_init]
  note c = summary_reads_besoins_processed
    [of noisy_response read_response read_response "JNum 1200" browser_init]
  note e = summary_reads_besoins_processed
    [of noisy_response read_response empty_response JNull browser_init]
  note f1 = summary_reads_besoins_processed
    [of noisy_response read_response falsy_response JNull browser_init]
  note f2 = summary_reads_besoins_processed
    [of noisy_response read_response falsy_response "JStr []" browser_init]
  note f3 = summary_reads_besoins_processed
    [of noisy_response read_response falsy_response "JNum 0" browser_init]
  from a g have 1: "summary noisy_response = summary read_response" by simp
  from a g have 2: "besoins_traites (summary read_response) = JNum 3" by simp
  from b g have 3: "matchings_crees (summary read_response) = JNum 5" by simp
  from c g have 4: "duree (summary read_response) = Seconds_of (JNum 1200)" by simp
  from e g have 5: "besoins_traites (summary empty_response) = JNum 0"
    "matchings_crees (summary empty_response) = JNum 0" "duree (summary empty_response) = NA"
    by simp_all
  from f1 g have 6: "besoins_traites (summary falsy_response) = JNum 0" by simp
  from f2 g have 7: "matchings_crees (summary falsy_response) = JNum 0" by simp
  from f3 g have 8: "duree (summary falsy_response) = NA" by simp
  from a g t0 have 9: "toasts (runMatching_resolved read_response browser_init) =
     [(Matching_termine_avec_succes (summary read_response), success)]" by simp
  have r: "\<And>s. besoins_traites s = JNum 0 \<Longrightarrow> matchings_crees s = JNum 0 \<Longrightarrow> duree s = NA \<Longrightarrow>
      s = \<lparr>besoins_traites = JNum 0, matchings_crees = JNum 0, duree = NA\<rparr>"
    by simp
  from g 1 2 3 4 r [OF 5] r [OF 6 7 8] 9 show ?thesis by simp
qed

text \<open>
  C6. The body that \<^verbatim>\<open>runMatching\<close> sends to the run endpoint has the four keys
  \<^verbatim>\<open>besoin_id\<close>, \<^verbatim>\<open>use_ai\<close>, \<^verbatim>\<open>force_refresh\<close>, \<^verbatim>\<open>config\<close>, in this order:
  \<^verbatim>\<open>besoin_id\<close> is the selected need or \<^verbatim>\<open>null\<close>, \<^verbatim>\<open>use_ai\<close> is the check box,
  \<^verbatim>\<open>force_refresh\<close> is always \<^verbatim>\<open>true\<close>, and the configuration of the run is always
  present under the key \<^verbatim>\<open>config\<close> with \<^verbatim>\<open>score_min\<close> and \<^verbatim>\<open>nb_candidats\<close>. There is
  no key \<^verbatim>\<open>override_config\<close> and no key \<^verbatim>\<open>need_id\<close>.
\<close>

theorem requestData_shape:
  "object_keys (requestData cfg) = [''besoin_id'', ''use_ai'', ''force_refresh'', ''config''] \<and>
   js_get (requestData cfg) ''besoin_id'' =
     Some (case cfg_besoin_id cfg of None \<Rightarrow> JNull | Some i \<Rightarrow> if i \<noteq> [] then JStr i else JNull) \<and>
   js_get (requestData cfg) ''use_ai'' = Some (JBool (use_ai cfg)) \<and>
   js_get (requestData cfg) ''force_refresh'' = Some (JBool True) \<and>
   js_get (requestData cfg) ''config'' =
     Some (JObj [(''score_min'', json_of_number (score_min cfg)),
                 (''nb_candidats'', json_of_number (nb_candidats cfg))]) \<and>
   js_get (requestData cfg) ''override_config'' = None \<and>
   js_get (requestData cfg) ''need_id'' = None \<and>
   pending_posts (runMatching True b) =
     (if isRunning (manager b) then pending_posts b
      else pending_posts b @ [requestData (config (manager b))])"
  by (simp add: requestData_def runMatching_def simulateProgress_def Let_def)

text \<open>The body sent with the initial configuration: no \<^verbatim>\<open>override_config\<close>, the
  configuration under \<^verbatim>\<open>config\<close>, and \<^verbatim>\<open>force_refresh\<close> true whatever was selected.\<close>

theorem requestData_has_no_override_config:
  "js_get (requestData default_config) ''override_config'' = None \<and>
   js_get (requestData default_config) ''config'' =
     Some (JObj [(''score_min'', JNum 40), (''nb_candidats'', JNum 5)]) \<and>
   js_get (requestData (default_config\<lparr>use_ai := True\<rparr>)) ''force_refresh'' = Some (JBool True) \<and>
   js_get (requestData default_config) ''force_refresh'' = Some (JBool True)"
  by (simp add: requestData_def default_config_def json_of_number_def)

subsection \<open>The schema\<close>

lemma drop_matchings_proj:
  "matchings (drop_matchings g d) = filter (\<lambda>m. \<not> g m) (matchings d)"
  "besoins (drop_matchings g d) = besoins d"
  "candidats (drop_matchings g d) = candidats d"
  "clients (drop_matchings g d) = clients d"
  by (simp_all add: drop_matchings_def Let_def)

lemma delete_besoin_proj:
  "matchings (delete_besoin k d) = filter (\<lambda>m. m_besoin_id m \<noteq> k) (matchings d)"
  "besoins (delete_besoin k d) = filter (\<lambda>b. b_id b \<noteq> k) (besoins d)"
  "candidats (delete_besoin k d) = candidats d"
  "clients (delete_besoin k d) = clients d"
  by (simp_all add: delete_besoin_def drop_matchings_proj Let_def)

lemma delete_candidat_proj:
  "matchings (delete_candidat k d) = filter (\<lambda>m. m_candidat_id m \<noteq> k) (matchings d)"
  "besoins (delete_candidat k d) = besoins d"
  "candidats (delete_candidat k d) = filter (\<lambda>c. ca_id c \<noteq> k) (candidats d)"
  "clients (delete_candidat k d) = clients d"
  by (simp_all add: delete_candidat_def drop_matchings_proj Let_def)

lemma delete_client_proj:
  "matchings (delete_client k d) =
     filter (\<lambda>m. \<not> (m_client_id m = k \<or>
                      m_besoin_id m \<in> set (map b_id (filter (\<lambda>b. b_client_id b = k) (besoins d)))))
       (matchings d)"
  "besoins (delete_client k d) = filter (\<lambda>b. b_client_id b \<noteq> k) (besoins d)"
  "candidats (delete_client k d) = candidats d"
  "clients (delete_client k d) = filter (\<lambda>c. cl_id c \<noteq> k) (clients d)"
  by (simp_all add: delete_client_def drop_matchings_proj Let_def)

lemma delete_user_proj:
  "matchings (delete_user k d) = matchings d" "besoins (delete_user k d) = besoins d"
  "candidats (delete_user k d) = candidats d" "clients (delete_user k d) = clients d"
  by (simp_all add: delete_user_def)

lemma delete_candidature_proj:
  "matchings (delete_candidature k d) = matchings d"
  "besoins (delete_candidature k d) = besoins d"
  "candidats (delete_candidature k d) = candidats d"
  "clients (delete_candidature k d) = clients d"
  by (simp_all add: delete_candidature_def)

lemmas delete_proj = delete_besoin_proj delete_candidat_proj delete_client_proj
  delete_user_proj delete_candidature_proj

lemma pair_of_rescored: "pair_of (rescored new old) = pair_of old"
  by (simp add: pair_of_def rescored_def)

lemma rescored_keys:
  "m_id (rescored new old) = m_id old" "m_besoin_id (rescored new old) = m_besoin_id old"
  "m_candidat_id (rescored new old) = m_candidat_id old"
  "m_client_id (rescored new old) = m_client_id old"
  by (simp_all add: rescored_def)

text \<open>A successful upsert of a pair that is stored rewrites rows in place.\<close>

lemma upsert_existing:
  assumes "pair_of m \<in> set (map pair_of (matchings d))" "upsert_match m d = Inr d'"
  shows "matchings d' = map (\<lambda>x. if pair_of x = pair_of m then rescored m x else x) (matchings d)"
    and "besoins d' = besoins d" and "candidats d' = candidats d" and "clients d' = clients d"
  using assms by (auto simp: upsert_match_def split: if_splits)

lemma upsert_existing_keys:
  assumes "pair_of m \<in> set (map pair_of (matchings d))" "upsert_match m d = Inr d'"
  shows "map m_id (matchings d') = map m_id (matchings d)"
    and "map pair_of (matchings d') = map pair_of (matchings d)"
    and "map m_besoin_id (matchings d') = map m_besoin_id (matchings d)"
    and "map m_candidat_id (matchings d') = map m_candidat_id (matchings d)"
    and "map m_client_id (matchings d') = map m_client_id (matchings d)"
  using upsert_existing(1) [OF assms]
  by (simp_all add: pair_of_rescored rescored_keys cong: map_cong)

lemma upsert_new:
  assumes "pair_of m \<notin> set (map pair_of (matchings d))"
  shows "upsert_match m d = insert_matching m d"
  using assms by (simp add: upsert_match_def)

lemma insert_matching_Inr:
  assumes "insert_matching m d = Inr d'"
  shows "d' = d\<lparr>matchings := matchings d @ [m]\<rparr>"
    and "pair_of m \<notin> set (map pair_of (matchings d))"
    and "m_id m \<notin> set (map m_id (matchings d))"
    and "m_besoin_id m \<in> set (map b_id (besoins d))"
    and "m_candidat_id m \<in> set (map ca_id (candidats d))"
    and "m_client_id m \<in> set (map cl_id (clients d))"
    and "score_total_check m"
  using assms by (auto simp: insert_matching_def split: if_splits)

lemma wf_db_empty: "wf_db empty_db"
  by (simp add: wf_db_def fk_ok_def empty_db_def)

lemma wf_db_upsert:
  assumes "wf_db d" "upsert_match m d = Inr d'"
  shows "wf_db d'"
proof (cases "pair_of m \<in> set (map pair_of (matchings d))")
  case True
  note k = upsert_existing_keys [OF True assms(2)] and u = upsert_existing(2-4) [OF True assms(2)]
  have "fk_ok d'"
  proof -
    have "list_all (\<lambda>i. i \<in> set (map b_id (besoins d'))) (map m_besoin_id (matchings d'))"
      "list_all (\<lambda>i. i \<in> set (map ca_id (candidats d'))) (map m_candidat_id (matchings d'))"
      "list_all (\<lambda>i. i \<in> set (map cl_id (clients d'))) (map m_client_id (matchings d'))"
      using assms(1) unfolding k u by (auto simp: wf_db_def fk_ok_def list_all_iff)
    then show ?thesis by (auto simp: fk_ok_def list_all_iff)
  qed
  with assms(1) k u show ?thesis by (simp add: wf_db_def)
next
  case False
  with assms(2) have "insert_matching m d = Inr d'" by (simp add: upsert_new)
  from insert_matching_Inr [OF this] assms(1) show ?thesis
    by (auto simp: wf_db_def fk_ok_def list_all_iff)
qed

lemma wf_db_apply_op:
  assumes "wf_db d" "apply_op op d = Inr d'"
  shows "wf_db d'"
proof (cases op)
  case (InsertClient c)
  with assms show ?thesis
    by (auto simp: wf_db_def fk_ok_def list_all_iff insert_client_def split: if_splits)
next
  case (InsertUser u)
  with assms show ?thesis
    by (auto simp: wf_db_def fk_ok_def list_all_iff insert_user_def split: if_splits)
next
  case (InsertCandidat c)
  with assms show ?thesis
    by (auto simp: wf_db_def fk_ok_def list_all_iff insert_candidat_def split: if_splits)
next
  case (InsertBesoin b)
  with assms show ?thesis
    by (auto simp: wf_db_def fk_ok_def list_all_iff insert_besoin_def split: if_splits)
next
  case (InsertMatching m)
  with assms have "insert_matching m d = Inr d'" by simp
  from insert_matching_Inr [OF this] assms(1) show ?thesis
    by (auto simp: wf_db_def fk_ok_def list_all_iff)
next
  case (InsertCandidature c)
  with assms show ?thesis
    by (auto simp: wf_db_def fk_ok_def list_all_iff insert_candidature_def split: if_splits)
next
  case (DeleteClient k)
  with assms have d': "d' = delete_client k d" by simp
  from assms(1) show ?thesis unfolding d'
    by (auto simp: wf_db_def fk_ok_def list_all_iff delete_proj distinct_map_filter)
next
  case (DeleteUser k)
  with assms show ?thesis
    by (auto simp: wf_db_def fk_ok_def list_all_iff delete_proj)
next
  case (DeleteCandidat k)
  with assms have d': "d' = delete_candidat k d" by simp
  from assms(1) show ?thesis unfolding d'
    by (auto simp: wf_db_def fk_ok_def list_all_iff delete_proj distinct_map_filter)
next
  case (DeleteBesoin k)
  with assms have d': "d' = delete_besoin k d" by simp
  from assms(1) show ?thesis unfolding d'
    by (auto simp: wf_db_def fk_ok_def list_all_iff delete_proj distinct_map_filter)
next
  case (DeleteCandidature k)
  with assms show ?thesis
    by (auto simp: wf_db_def fk_ok_def list_all_iff delete_proj)
next
  case (UpsertMatch m)
  with assms show ?thesis by (simp add: wf_db_upsert)
qed

lemma wf_db_exec: "wf_db d \<Longrightarrow> wf_db (exec op d)"
  by (cases "apply_op op d") (simp_all add: exec_def wf_db_apply_op)

lemma run_ops_Nil: "run_ops [] d = d"
  by (simp add: run_ops_def)

lemma run_ops_Cons: "run_ops (op # ops) d = run_ops ops (exec op d)"
  by (simp add: run_ops_def)

lemma run_ops_append: "run_ops (ops @ ops') d = run_ops ops' (run_ops ops d)"
  by (simp add: run_ops_def)

lemma wf_db_run_ops: "wf_db d \<Longrightarrow> wf_db (run_ops ops d)"
  by (induction ops arbitrary: d) (simp_all add: run_ops_Nil run_ops_Cons wf_db_exec)

lemma distinct_map_filter_le_one:
  "distinct (map f xs) \<Longrightarrow> length (filter (\<lambda>x. f x = p) xs) \<le> 1"
proof (induction xs)
  case Nil
  then show ?case by simp
next
  case (Cons x xs)
  show ?case
  proof (cases "f x = p")
    case True
    from Cons.prems have "f x \<notin> f ` set xs"
      by simp
    with True have "\<forall>y \<in> set xs. f y \<noteq> p"
      by blast
    then have "filter (\<lambda>x. f x = p) xs = []"
      by (simp add: filter_empty_conv)
    with True show ?thesis by simp
  next
    case False
    with Cons show ?thesis by simp
  qed
qed

text \<open>
  C2. At most one matching is stored per pair of need and candidate: after any sequence of
  statements, inserts and upserts included, the pairs of the stored matchings are distinct,
  so no pair has two rows. An \<^verbatim>\<open>INSERT\<close> of a pair that is stored is rejected. An upsert of a
  pair that is stored keeps the rows, their keys and their order, and gives the row of the
  pair the new scores and rank.
\<close>

theorem one_matching_per_pair:
  "distinct (map pair_of (matchings (run_ops ops empty_db))) \<and>
   length (filter (\<lambda>x. pair_of x = p) (matchings (run_ops ops empty_db))) \<le> 1 \<and>
   (pair_of m \<in> set (map pair_of (matchings d)) \<longrightarrow> isl (insert_matching m d)) \<and>
   (pair_of m \<in> set (map pair_of (matchings d)) \<and> upsert_match m d = Inr d' \<longrightarrow>
      length (matchings d') = length (matchings d) \<and>
      map m_id (matchings d') = map m_id (matchings d) \<and>
      map pair_of (matchings d') = map pair_of (matchings d) \<and>
      list_all (\<lambda>x. pair_of x \<noteq> pair_of m \<or>
                     (score_total x = score_total m \<and> m_rang x = m_rang m))
        (matchings d'))"
proof (intro conjI impI)
  have "wf_db (run_ops ops empty_db)"
    by (simp add: wf_db_run_ops wf_db_empty)
  then show dist: "distinct (map pair_of (matchings (run_ops ops empty_db)))"
    by (simp add: wf_db_def)
  then show "length (filter (\<lambda>x. pair_of x = p) (matchings (run_ops ops empty_db))) \<le> 1"
    by (rule distinct_map_filter_le_one)
next
  assume "pair_of m \<in> set (map pair_of (matchings d))"
  then show "isl (insert_matching m d)"
    by (simp add: insert_matching_def)
next
  assume a: "pair_of m \<in> set (map pair_of (matchings d)) \<and> upsert_match m d = Inr d'"
  then have ex: "pair_of m \<in> set (map pair_of (matchings d))" and up: "upsert_match m d = Inr d'"
    by simp_all
  note k = upsert_existing_keys [OF ex up] and u = upsert_existing(1) [OF ex up]
  from k(1) show "map m_id (matchings d') = map m_id (matchings d)" .
  from k(2) show "map pair_of (matchings d') = map pair_of (matchings d)" .
  from k(1) show "length (matchings d') = length (matchings d)"
    by (rule map_eq_imp_length_eq)
  show "list_all (\<lambda>x. pair_of x \<noteq> pair_of m \<or>
                     (score_total x = score_total m \<and> m_rang x = m_rang m)) (matchings d')"
    unfolding u by (auto simp: list_all_iff rescored_def pair_of_def)
qed

theorem one_matching_per_pair_witness:
  "pair_of rescoring \<in> set (map pair_of (matchings (run_ops one_pair_ops empty_db))) \<and>
   upsert_match rescoring (run_ops one_pair_ops empty_db) =
     Inr (exec (UpsertMatch rescoring) (run_ops one_pair_ops empty_db)) \<and>
   isl (insert_matching rescoring (run_ops one_pair_ops empty_db)) \<and>
   map m_id (matchings (run_ops one_pair_ops empty_db)) = [''m1''] \<and>
   map m_id (matchings (exec (UpsertMatch rescoring) (run_ops one_pair_ops empty_db))) = [''m1''] \<and>
   map score_total (matchings (run_ops one_pair_ops empty_db)) = [8500] \<and>
   map score_total (matchings (exec (UpsertMatch rescoring) (run_ops one_pair_ops empty_db))) =
     [9000] \<and>
   list_all (\<lambda>x. pair_of x \<noteq> pair_of rescoring \<or>
                  (score_total x = score_total rescoring \<and> m_rang x = m_rang rescoring))
     (matchings (exec (UpsertMatch rescoring) (run_ops one_pair_ops empty_db))) \<and>
   length (filter (\<lambda>x. pair_of x = (''b1'', ''c1''))
     (matchings (run_ops (one_pair_ops @ [UpsertMatch rescoring, InsertMatching rescoring])
        empty_db))) \<le> 1"
proof -
  let ?d = "run_ops one_pair_ops empty_db"
  let ?d' = "exec (UpsertMatch rescoring) ?d"
  have h1: "pair_of rescoring \<in> set (map pair_of (matchings ?d))"
    by code_simp
  have h2: "upsert_match rescoring ?d = Inr ?d'"
    by code_simp
  have e1: "map m_id (matchings ?d) = [''m1'']"
    by code_simp
  have e2: "map score_total (matchings ?d) = [8500]"
    by code_simp
  have e3: "map score_total (matchings ?d') = [9000]"
    by code_simp
  note t = one_matching_per_pair
    [of "one_pair_ops @ [UpsertMatch rescoring, InsertMatching rescoring]" "(''b1'', ''c1'')"
      rescoring ?d ?d']
  from t h1 have c1: "isl (insert_matching rescoring ?d)"
    by blast
  from t h1 h2 e1 have c2: "map m_id (matchings ?d') = [''m1'']"
    by simp
  from t h1 h2 have c3: "list_all (\<lambda>x. pair_of x \<noteq> pair_of rescoring \<or>
                  (score_total x = score_total rescoring \<and> m_rang x = m_rang rescoring))
     (matchings ?d')"
    by blast
  from t have c4: "length (filter (\<lambda>x. pair_of x = (''b1'', ''c1''))
     (matchings (run_ops (one_pair_ops @ [UpsertMatch rescoring, InsertMatching rescoring])
        empty_db))) \<le> 1"
    by blast
  from h1 h2 c1 e1 c2 e2 e3 c3 c4 show ?thesis by blast
qed

subsection \<open>The tenant of a matching\<close>





lemma tenant_ok_iff:
  "tenant_ok d =
     (\<forall>m \<in> set (matchings d). \<exists>b. find (\<lambda>b. b_id b = m_besoin_id m) (besoins d) = Some b \<and>
                                    b_client_id b = m_client_id m)"
  by (auto simp: tenant_ok_def need_of_def list_all_iff split: option.splits)

lemma tenant_ok_upsert:
  assumes "tenant_ok d" "upsert_match m d = Inr d'"
    and "find (\<lambda>b. b_id b = m_besoin_id m) (besoins d) = Some b" "b_client_id b = m_client_id m"
  shows "tenant_ok d'"
proof (cases "pair_of m \<in> set (map pair_of (matchings d))")
  case True
  note u = upsert_existing [OF True assms(2)]
  from assms(1) show ?thesis
    unfolding tenant_ok_iff u by (auto simp: rescored_keys)
next
  case False
  with assms(2) have "insert_matching m d = Inr d'" by (simp add: upsert_new)
  from insert_matching_Inr(1) [OF this] assms(1,3,4) show ?thesis
    by (auto simp: tenant_ok_iff)
qed


















subsection \<open>Deletions\<close>

text \<open>
  C7. A stored matching disappears from the store only with a statement that deletes its
  need, its candidate, its client, or the client that owns its need; and the deletion of its
  need, of its candidate and of its client each removes it. No insert, no upsert and no
  deletion of a user or of a candidature removes a matching.
\<close>

theorem matching_removed_by_need_candidate_or_client:
  "(m \<in> set (matchings d) \<and> m_id m \<notin> set (map m_id (matchings (exec op d))) \<longrightarrow>
      op = DeleteBesoin (m_besoin_id m) \<or> op = DeleteCandidat (m_candidat_id m) \<or>
      op = DeleteClient (m_client_id m) \<or>
      list_ex (\<lambda>b. b_id b = m_besoin_id m \<and> op = DeleteClient (b_client_id b)) (besoins d)) \<and>
   m \<notin> set (matchings (exec (DeleteBesoin (m_besoin_id m)) d)) \<and>
   m \<notin> set (matchings (exec (DeleteCandidat (m_candidat_id m)) d)) \<and>
   m \<notin> set (matchings (exec (DeleteClient (m_client_id m)) d))"
proof (intro conjI impI)
  assume a: "m \<in> set (matchings d) \<and> m_id m \<notin> set (map m_id (matchings (exec op d)))"
  then have m: "m \<in> set (matchings d)" and gone: "m \<notin> set (matchings (exec op d))"
    by auto
  have kept: "m \<in> set (matchings (exec op d))" if "matchings (exec op d) = matchings d @ ys" for ys
    using m that by simp
  show "op = DeleteBesoin (m_besoin_id m) \<or> op = DeleteCandidat (m_candidat_id m) \<or>
      op = DeleteClient (m_client_id m) \<or>
      list_ex (\<lambda>b. b_id b = m_besoin_id m \<and> op = DeleteClient (b_client_id b)) (besoins d)"
  proof (cases op)
    case (InsertClient c)
    with gone m show ?thesis
      by (auto simp: exec_def insert_client_def split: if_splits)
  next
    case (InsertUser u)
    with gone m show ?thesis
      by (auto simp: exec_def insert_user_def split: if_splits)
  next
    case (InsertCandidat c)
    with gone m show ?thesis
      by (auto simp: exec_def insert_candidat_def split: if_splits)
  next
    case (InsertBesoin b)
    with gone m show ?thesis
      by (auto simp: exec_def insert_besoin_def split: if_splits)
  next
    case (InsertMatching x)
    with gone m show ?thesis
      by (auto simp: exec_def insert_matching_def split: if_splits)
  next
    case (InsertCandidature c)
    with gone m show ?thesis
      by (auto simp: exec_def insert_candidature_def split: if_splits)
  next
    case (DeleteClient k)
    with gone m show ?thesis
      by (auto simp: exec_def delete_proj list_ex_iff)
  next
    case (DeleteUser k)
    with gone m show ?thesis by (simp add: exec_def delete_proj)
  next
    case (DeleteCandidat k)
    with gone m show ?thesis by (simp add: exec_def delete_proj)
  next
    case (DeleteBesoin k)
    with gone m show ?thesis by (simp add: exec_def delete_proj)
  next
    case (DeleteCandidature k)
    with gone m show ?thesis by (simp add: exec_def delete_proj)
  next
    case (UpsertMatch x)
    show ?thesis
    proof (cases "upsert_match x d")
      case (Inl e)
      with UpsertMatch gone m show ?thesis by (simp add: exec_def)
    next
      case (Inr d')
      show ?thesis
      proof (cases "pair_of x \<in> set (map pair_of (matchings d))")
        case True
        from upsert_existing_keys(1) [OF True Inr] m have "m_id m \<in> set (map m_id (matchings d'))"
          by simp
        with a UpsertMatch Inr show ?thesis by (simp add: exec_def)
      next
        case False
        with Inr have "insert_matching x d = Inr d'" by (simp add: upsert_new)
        from insert_matching_Inr(1) [OF this] UpsertMatch Inr gone m show ?thesis
          by (simp add: exec_def)
      qed
    qed
  qed
next
  show "m \<notin> set (matchings (exec (DeleteBesoin (m_besoin_id m)) d))"
    by (simp add: exec_def delete_proj)
  show "m \<notin> set (matchings (exec (DeleteCandidat (m_candidat_id m)) d))"
    by (simp add: exec_def delete_proj)
  show "m \<notin> set (matchings (exec (DeleteClient (m_client_id m)) d))"
    by (simp add: exec_def delete_proj)
qed

theorem matching_removed_by_need_candidate_or_client_witness:
  "example_matching ''m1'' ''b1'' ''c1'' ''B'' 8500 \<in>
     set (matchings (run_ops foreign_tenant_ops empty_db)) \<and>
   m_id (example_matching ''m1'' ''b1'' ''c1'' ''B'' 8500) \<notin>
     set (map m_id (matchings (exec (DeleteClient ''B'') (run_ops foreign_tenant_ops empty_db)))) \<and>
   (DeleteClient ''B'' = DeleteBesoin (m_besoin_id (example_matching ''m1'' ''b1'' ''c1'' ''B'' 8500)) \<or>
    DeleteClient ''B'' = DeleteCandidat (m_candidat_id (example_matching ''m1'' ''b1'' ''c1'' ''B'' 8500)) \<or>
    DeleteClient ''B'' = DeleteClient (m_client_id (example_matching ''m1'' ''b1'' ''c1'' ''B'' 8500)) \<or>
    list_ex (\<lambda>b. b_id b = m_besoin_id (example_matching ''m1'' ''b1'' ''c1'' ''B'' 8500) \<and>
                 DeleteClient ''B'' = DeleteClient (b_client_id b))
      (besoins (run_ops foreign_tenant_ops empty_db))) \<and>
   example_matching ''m1'' ''b1'' ''c1'' ''B'' 8500 \<notin>
     set (matchings (exec (DeleteBesoin ''b1'') (run_ops foreign_tenant_ops empty_db)))"
proof -
  let ?m = "example_matching ''m1'' ''b1'' ''c1'' ''B'' 8500"
  let ?d = "run_ops foreign_tenant_ops empty_db"
  have h1: "?m \<in> set (matchings ?d)"
    by code_simp
  have h2: "m_id ?m \<notin> set (map m_id (matchings (exec (DeleteClient ''B'') ?d)))"
    by code_simp
  have b: "m_besoin_id ?m = ''b1''"
    by (simp add: example_matching_def)
  note t = matching_removed_by_need_candidate_or_client [of ?m ?d "DeleteClient ''B''"]
  from t h1 h2 b show ?thesis by simp
qed

text \<open>A matching of need b1, owned by client A, stored with the \<^verbatim>\<open>client_id\<close> of client B:
  deleting client B removes the matching, and its need and its candidate stay.\<close>

theorem matching_removed_by_client_deletion:
  "map m_id (matchings (run_ops foreign_tenant_ops empty_db)) = [''m1''] \<and>
   map m_client_id (matchings (run_ops foreign_tenant_ops empty_db)) = [''B''] \<and>
   matchings (exec (DeleteClient ''B'') (run_ops foreign_tenant_ops empty_db)) = [] \<and>
   map b_id (besoins (exec (DeleteClient ''B'') (run_ops foreign_tenant_ops empty_db))) =
     [''b1''] \<and>
   map ca_id (candidats (exec (DeleteClient ''B'') (run_ops foreign_tenant_ops empty_db))) =
     [''c1'']"
  by code_simp

subsection \<open>The stored score in the results view\<close>

lemma displayed_score_is_hundredths:
  "score (processMatching (m\<lparr>j_score_total := numeric_value c\<rparr>)) = c"
  by (simp add: processMatching_def js_round_numeric_value)

text \<open>
  C1. Every stored total and sub-score is to lie in [0,100], and the score that the results
  view shows is to be on the same scale as the stored total. The row \<open>stored_85\<close> has a total
  of 85.00, a skills sub-score of 150.00 and a location sub-score of -5.00; the schema
  accepts it, since only \<^verbatim>\<open>score_total\<close> has a check; and \<^verbatim>\<open>processMatchings\<close> shows the
  total 85 as the score 8500 with the status excellent.
\<close>

theorem stored_total_shown_times_100:
  "apply_op (InsertMatching stored_85) (run_ops base_ops empty_db) =
     Inr ((run_ops base_ops empty_db)\<lparr>matchings := [stored_85]\<rparr>) \<and>
   score_total_check stored_85 \<and>
   numeric_value (score_total stored_85) = 85 \<and>
   score_competences stored_85 = Some (150 * 100) \<and>
   score_localisation stored_85 = Some (- 5 * 100) \<and>
   score (processMatching (example_json ''m1'' (numeric_value (score_total stored_85)))) = 8500 \<and>
   status (processMatching (example_json ''m1'' (numeric_value (score_total stored_85)))) =
     ''excellent''"
proof -
  have 1: "apply_op (InsertMatching stored_85) (run_ops base_ops empty_db) =
     Inr ((run_ops base_ops empty_db)\<lparr>matchings := [stored_85]\<rparr>)"
    by code_simp
  have 2: "score_total_check stored_85"
    by (simp add: score_total_check_def stored_85_def example_matching_def)
  have 3: "numeric_value (score_total stored_85) = 85"
    by (simp add: numeric_value_def stored_85_def example_matching_def)
  have 4: "score_competences stored_85 = Some (150 * 100)"
    "score_localisation stored_85 = Some (- 5 * 100)"
    by (simp_all add: stored_85_def example_matching_def)
  have 5: "score (processMatching (example_json ''m1'' 85)) = 8500"
    by (simp add: processMatching_def example_json_def js_round_numeral)
  have 6: "status (processMatching (example_json ''m1'' 85)) = ''excellent''"
    by (simp add: processMatching_def example_json_def getStatus_def)
  from 1 2 3 4 5 6 show ?thesis by simp
qed

end
